theory Spec2Isabelle
  imports Main "HOL-Library.Sublist"
begin

section \<open>The host language: values, errors, regular expressions\<close>

text \<open>
  The batch-generation function of the certificate creator (the edge function
  \<^verbatim>\<open>generate-certificates\<close>): it loads a batch with its template and the batch's
  pending certificate records, substitutes each record's data into the template, uploads
  the result, marks the record generated or failed, and closes with an update of the
  batch. The function is a Deno handler (\<^verbatim>\<open>serve(async (req) => ...)\<close>). It throws
  and catches JavaScript errors and only ever reads their \<^verbatim>\<open>message\<close>.
\<close>

datatype js_error = JsError (message: string)

text \<open>
  A string is the list of its code units; the characters of the model are those below 256.
  \<open>quoted s\<close> is \<open>s\<close> between two apostrophes, as the engine's messages have
  property names.
\<close>

definition quoted :: "string \<Rightarrow> string" where
  "quoted s = CHR 0x27 # s @ [CHR 0x27]"

text \<open>
  \<^verbatim>\<open>certificate_data\<close> is a JSON object whose values are the cells of one spreadsheet
  row (\<^verbatim>\<open>ExcelData = { [key: string]: string | number }\<close>). A number is a finite
  double, written here as a pair: \<open>JNumber m e\<close> is the number \<open>m * 2^e\<close>, so that
  \<open>JNumber 95 0\<close> is 95 and \<open>JNumber 191 (- 1)\<close> is 95.5.
\<close>

datatype json = JNull | JBool bool | JNumber int int | JString string

definition digit_char :: "nat \<Rightarrow> char" where
  "digit_char d = char_of (48 + d)"

function decimal :: "nat \<Rightarrow> string" where
  "decimal n = (if n < 10 then [digit_char n] else decimal (n div 10) @ [digit_char (n mod 10)])"
  by pat_completeness auto
termination
  by (relation "measure (\<lambda>n. n)") auto

declare decimal.simps [simp del]

text \<open>
  The integer a number is, if it is one; and the safe integers, which are the integers
  that \<^verbatim>\<open>String\<close> prints digit by digit.
\<close>

definition integral :: "int \<Rightarrow> int \<Rightarrow> int option" where
  "integral m e =
     (if 0 \<le> e then Some (m * 2 ^ nat e)
      else if m mod 2 ^ nat (- e) = 0 then Some (m div 2 ^ nat (- e))
      else None)"

definition safe_integer :: "int \<Rightarrow> bool" where
  "safe_integer n = (\<bar>n\<bar> < 2 ^ 53)"

subsection \<open>Patterns: \<^verbatim>\<open>new RegExp(placeholder, 'g')\<close>\<close>

text \<open>
  The pattern handed to \<^verbatim>\<open>RegExp\<close> is the text \<^verbatim>\<open>{{key}}\<close> with the key spliced in
  unescaped, so the key's characters are read as pattern syntax. The fragment of the
  (non-unicode, Annex B) pattern grammar embedded here is: pattern characters, the dot, and
  the quantifiers \<^verbatim>\<open>*\<close>, \<^verbatim>\<open>+\<close>, \<^verbatim>\<open>?\<close>, \<^verbatim>\<open>{n}\<close>, \<^verbatim>\<open>{n,}\<close>, \<^verbatim>\<open>{n,m}\<close>, each
  optionally lazy. A brace that does not open a well-formed quantifier is a pattern
  character. A pattern that uses one of \<^verbatim>\<open>^ $ \ ( ) [ |\<close> is outside the fragment and is
  handed to the host's engine, a parameter of the model.
\<close>

datatype atom = PatternCharacter char | Dot

datatype regex_term = Term atom nat "nat option" bool

datatype parsed = SyntaxError string | Terms "regex_term list" | Extended

definition is_digit :: "char \<Rightarrow> bool" where
  "is_digit c = (c \<in> set ''0123456789'')"

definition decimal_value :: "string \<Rightarrow> nat" where
  "decimal_value ds = foldl (\<lambda>n c. 10 * n + (of_char c - 48)) 0 ds"

text \<open>
  The engine reads a bound of a braced quantifier into a 32-bit integer and stops at the
  largest one, \<open>2^31 - 1\<close>, which as an upper bound stands for no bound. (As a lower
  bound it asks for more repetitions than a string has characters, as the number written
  does.)
\<close>

definition upper_bound :: "string \<Rightarrow> nat option" where
  "upper_bound ds = (if 2147483647 \<le> int (decimal_value ds) then None else Some (decimal_value ds))"

text \<open>
  A braced quantifier at the head of the text: \<^verbatim>\<open>{n}\<close>, \<^verbatim>\<open>{n,}\<close> or \<^verbatim>\<open>{n,m}\<close>.
  The result is the bounds and the text after the closing brace.
\<close>

definition braced_quantifier :: "string \<Rightarrow> ((nat \<times> nat option) \<times> string) option" where
  "braced_quantifier s =
     (case s of
        [] \<Rightarrow> None
      | c # r \<Rightarrow>
          if c \<noteq> CHR ''{'' \<or> takeWhile is_digit r = [] then None
          else
            (let n = decimal_value (takeWhile is_digit r) in
             case dropWhile is_digit r of
               [] \<Rightarrow> None
             | d # r2 \<Rightarrow>
                 if d = CHR ''}'' then Some ((n, upper_bound (takeWhile is_digit r)), r2)
                 else if d = CHR '','' then
                   (case dropWhile is_digit r2 of
                      [] \<Rightarrow> None
                    | e # r4 \<Rightarrow>
                        if e = CHR ''}'' then
                          Some ((n, if takeWhile is_digit r2 = [] then None
                                    else upper_bound (takeWhile is_digit r2)), r4)
                        else None)
                 else None))"

definition quantifier_prefix :: "string \<Rightarrow> ((nat \<times> nat option) \<times> string) option" where
  "quantifier_prefix s =
     (case s of
        [] \<Rightarrow> None
      | c # r \<Rightarrow>
          if c = CHR ''*'' then Some ((0, None), r)
          else if c = CHR ''+'' then Some ((1, None), r)
          else if c = CHR ''?'' then Some ((0, Some 1), r)
          else braced_quantifier s)"

text \<open>A quantifier with its optional lazy mark; the flag is True for a greedy one.\<close>

definition quantifier :: "string \<Rightarrow> ((nat \<times> nat option \<times> bool) \<times> string) option" where
  "quantifier s =
     (case quantifier_prefix s of
        None \<Rightarrow> None
      | Some ((lo, hi), r) \<Rightarrow>
          (case r of
             [] \<Rightarrow> Some ((lo, hi, True), r)
           | c # r' \<Rightarrow> if c = CHR ''?'' then Some ((lo, hi, False), r') else Some ((lo, hi, True), r)))"

definition out_of_order :: "nat \<Rightarrow> nat option \<Rightarrow> bool" where
  "out_of_order lo hi = (case hi of None \<Rightarrow> False | Some h \<Rightarrow> h < lo)"

definition beyond_fragment :: "char \<Rightarrow> bool" where
  "beyond_fragment c = (c \<in> set [CHR ''^'', CHR ''$'', CHR 0x5C, CHR ''('', CHR '')'', CHR ''['', CHR ''|''])"

definition with_term :: "regex_term \<Rightarrow> parsed \<Rightarrow> parsed" where
  "with_term t p = (case p of Terms ts \<Rightarrow> Terms (t # ts) | other \<Rightarrow> other)"

lemma dropWhile_Cons_shorter:
  "dropWhile P xs = y # ys \<Longrightarrow> length ys < length xs"
  using length_dropWhile_le [of P xs] by simp

lemma braced_quantifier_shorter:
  assumes bq: "braced_quantifier s = Some (q, r)"
  shows "length r < length s"
proof -
  obtain c s' where top: "s = c # s'"
    using bq by (cases s) (simp_all add: braced_quantifier_def)
  have nonempty: "dropWhile is_digit s' \<noteq> []"
  proof
    assume e: "dropWhile is_digit s' = []"
    show False
      using bq unfolding braced_quantifier_def top Let_def list.case e
      by (simp split: if_splits)
  qed
  then obtain d r2 where outer: "dropWhile is_digit s' = d # r2"
    by (cases "dropWhile is_digit s'") auto
  have l2: "length r2 < length s'"
    using outer by (rule dropWhile_Cons_shorter)
  show ?thesis
  proof (cases "d = CHR ''}''")
    case True
    then show ?thesis
      using bq l2 unfolding braced_quantifier_def top Let_def list.case outer
      by (simp split: if_splits)
  next
    case False
    have nonempty2: "dropWhile is_digit r2 \<noteq> []"
    proof
      assume e: "dropWhile is_digit r2 = []"
      show False
        using bq False unfolding braced_quantifier_def top Let_def list.case outer e
        by (simp split: if_splits)
    qed
    then obtain e r4 where inner: "dropWhile is_digit r2 = e # r4"
      by (cases "dropWhile is_digit r2") auto
    have "length r4 < length r2"
      using inner by (rule dropWhile_Cons_shorter)
    then show ?thesis
      using bq l2 False unfolding braced_quantifier_def top Let_def list.case outer inner
      by (simp split: if_splits)
  qed
qed

lemma quantifier_shorter:
  "quantifier s = Some (q, r) \<Longrightarrow> length r < length s"
  by (cases s)
     (auto simp: quantifier_def quantifier_prefix_def split: if_splits option.splits list.splits prod.splits
           dest!: braced_quantifier_shorter)

text \<open>
  The parser. At the position of an atom, a quantifier has nothing to repeat; after an
  atom, one quantifier may follow.
\<close>

function parse_pattern :: "string \<Rightarrow> parsed" where
  "parse_pattern [] = Terms []"
| "parse_pattern (c # r) =
     (if beyond_fragment c then Extended
      else if quantifier_prefix (c # r) \<noteq> None then SyntaxError ''Nothing to repeat''
      else
        (let a = (if c = CHR ''.'' then Dot else PatternCharacter c) in
         case quantifier r of
           None \<Rightarrow> with_term (Term a 1 (Some 1) True) (parse_pattern r)
         | Some ((lo, hi, greedy), r') \<Rightarrow>
             if out_of_order lo hi then SyntaxError ''numbers out of order in {} quantifier''
             else with_term (Term a lo hi greedy) (parse_pattern r')))"
  by pat_completeness auto
termination
  by (relation "measure length") (auto dest: quantifier_shorter)

declare parse_pattern.simps [simp del]

subsection \<open>Matching\<close>

text \<open>
  Line terminators are what the dot does not match (the pattern has neither the
  \<^verbatim>\<open>s\<close> nor the \<^verbatim>\<open>u\<close> flag).
\<close>

fun atom_matches :: "atom \<Rightarrow> char \<Rightarrow> bool" where
  "atom_matches (PatternCharacter c) x = (x = c)"
| "atom_matches Dot x = (x \<noteq> CHR 0x0A \<and> x \<noteq> CHR 0x0D)"

text \<open>
  The repetition counts a quantified atom may take where \<open>avail\<close> characters match it,
  in the order the backtracking matcher tries them: most first when greedy, fewest first
  when lazy.
\<close>

definition repetitions :: "nat \<Rightarrow> nat option \<Rightarrow> bool \<Rightarrow> nat \<Rightarrow> nat list" where
  "repetitions lo hi greedy avail =
     (let top = (case hi of None \<Rightarrow> avail | Some h \<Rightarrow> min h avail);
          ns = [lo ..< Suc top]
      in if greedy then rev ns else ns)"

fun first_some :: "('a \<Rightarrow> 'b option) \<Rightarrow> 'a list \<Rightarrow> 'b option" where
  "first_some f [] = None"
| "first_some f (x # xs) = (case f x of Some y \<Rightarrow> Some y | None \<Rightarrow> first_some f xs)"

text \<open>The length of the match of the terms at the head of the text, if there is one.\<close>

fun match_here :: "regex_term list \<Rightarrow> string \<Rightarrow> nat option" where
  "match_here [] s = Some 0"
| "match_here (Term a lo hi greedy # ts) s =
     first_some (\<lambda>n. map_option (\<lambda>k. n + k) (match_here ts (drop n s)))
       (repetitions lo hi greedy (length (takeWhile (atom_matches a) s)))"

subsection \<open>Replacing: \<^verbatim>\<open>htmlContent.replace(regexp, String(value))\<close>\<close>

text \<open>
  The second argument of \<^verbatim>\<open>replace\<close> is a replacement template: \<^verbatim>\<open>$$\<close> stands for
  a dollar sign, \<^verbatim>\<open>$&\<close> for the matched text, \<^verbatim>\<open>$`\<close> for the text preceding the match
  and \<^verbatim>\<open>$'\<close> for the text after it. The patterns of the fragment have no capture
  groups, so \<^verbatim>\<open>$1\<close> and \<^verbatim>\<open>$<name>\<close> stand for themselves.
\<close>

fun get_substitution :: "string \<Rightarrow> string \<Rightarrow> string \<Rightarrow> string \<Rightarrow> string" where
  "get_substitution matched preceding following [] = []"
| "get_substitution matched preceding following [c] = [c]"
| "get_substitution matched preceding following (c # d # r) =
     (if c = CHR ''$'' \<and> d = CHR ''$'' then CHR ''$'' # get_substitution matched preceding following r
      else if c = CHR ''$'' \<and> d = CHR ''&'' then matched @ get_substitution matched preceding following r
      else if c = CHR ''$'' \<and> d = CHR 0x60 then preceding @ get_substitution matched preceding following r
      else if c = CHR ''$'' \<and> d = CHR 0x27 then following @ get_substitution matched preceding following r
      else c # get_substitution matched preceding following (d # r))"

lemma first_some_Some:
  "first_some f xs = Some y \<Longrightarrow> \<exists>x \<in> set xs. f x = Some y"
  by (induction xs) (auto split: option.splits)

lemma set_repetitions:
  "n \<in> set (repetitions lo hi greedy avail) \<Longrightarrow> n \<le> avail"
  by (auto simp: repetitions_def Let_def split: option.splits if_splits)

lemma match_here_le:
  "match_here ts s = Some n \<Longrightarrow> n \<le> length s"
proof (induction ts arbitrary: s n)
  case Nil
  then show ?case by simp
next
  case (Cons t ts)
  obtain a lo hi greedy where t: "t = Term a lo hi greedy"
    by (cases t)
  from Cons.prems obtain m where m: "m \<in> set (repetitions lo hi greedy (length (takeWhile (atom_matches a) s)))"
    and r: "map_option (\<lambda>k. m + k) (match_here ts (drop m s)) = Some n"
    unfolding t by (auto dest!: first_some_Some)
  from r obtain k where k: "match_here ts (drop m s) = Some k" and n: "n = m + k"
    by auto
  have "m \<le> length (takeWhile (atom_matches a) s)"
    using m by (rule set_repetitions)
  then have "m \<le> length s"
    using length_takeWhile_le [of "atom_matches a" s] by simp
  moreover have "k \<le> length (drop m s)"
    using k by (rule Cons.IH)
  ultimately show ?case
    using n by simp
qed

text \<open>
  The global replacement: the text is scanned from the left; where the pattern matches,
  the expansion of the replacement stands for the match and the scan goes on behind it
  (one character further on when the match is empty); elsewhere the character is kept.
  \<open>preceding\<close> is the text already scanned.
\<close>

function replace_from :: "regex_term list \<Rightarrow> string \<Rightarrow> string \<Rightarrow> string \<Rightarrow> string" where
  "replace_from re replacement preceding rest =
     (case match_here re rest of
        None \<Rightarrow>
          (case rest of [] \<Rightarrow> [] | c # r \<Rightarrow> c # replace_from re replacement (preceding @ [c]) r)
      | Some n \<Rightarrow>
          get_substitution (take n rest) preceding (drop n rest) replacement @
          (if n = 0 then
             (case rest of [] \<Rightarrow> [] | c # r \<Rightarrow> c # replace_from re replacement (preceding @ [c]) r)
           else replace_from re replacement (preceding @ take n rest) (drop n rest)))"
  by pat_completeness auto
termination
proof (relation "measure (\<lambda>(re, replacement, preceding, rest). length rest)")
  show "wf (measure (\<lambda>(re, replacement, preceding, rest). length rest))"
    by simp
next
  fix re :: "regex_term list" and replacement preceding rest :: string and c r
  assume "rest = c # r"
  then show "((re, replacement, preceding @ [c], r), (re, replacement, preceding, rest))
               \<in> measure (\<lambda>(re, replacement, preceding, rest). length rest)"
    by simp
next
  fix re :: "regex_term list" and replacement preceding rest :: string and n c r
  assume "rest = c # r"
  then show "((re, replacement, preceding @ [c], r), (re, replacement, preceding, rest))
               \<in> measure (\<lambda>(re, replacement, preceding, rest). length rest)"
    by simp
next
  fix re :: "regex_term list" and replacement preceding rest :: string and n
  assume m: "match_here re rest = Some n" and n: "n \<noteq> 0"
  have "n \<le> length rest"
    using m by (rule match_here_le)
  with n show "((re, replacement, preceding @ take n rest, drop n rest), (re, replacement, preceding, rest))
               \<in> measure (\<lambda>(re, replacement, preceding, rest). length rest)"
    by simp
qed

declare replace_from.simps [simp del]

section \<open>The store\<close>

text \<open>
  The rows of the three tables, with the fields of \<^verbatim>\<open>src/types/index.ts\<close>. A field name
  that several tables share carries the table's prefix here (\<open>tpl_\<close>, \<open>bat_\<close>,
  \<open>crt_\<close>). A nullable column is an option. \<^verbatim>\<open>certificate_data\<close> is None when it is
  null (or otherwise falsy) and else the entries of the object, in the order
  \<^verbatim>\<open>Object.entries\<close> lists them.
\<close>

record certificate_template =
  tpl_id :: string
  tpl_user_id :: string
  name :: string
  description :: "string option"
  template_type :: string
  template_content :: "string option"
  file_url :: "string option"
  placeholders :: "string list"
  is_active :: bool
  tpl_created_at :: string
  tpl_updated_at :: string

record certificate_batch =
  bat_id :: string
  bat_user_id :: string
  template_id :: string
  batch_name :: string
  total_certificates :: int
  generated_certificates :: int
  bat_status :: string
  batch_zip_url :: "string option"
  bat_error_message :: "string option"
  bat_created_at :: string
  bat_updated_at :: string

record certificate =
  crt_id :: string
  batch_id :: string
  crt_user_id :: string
  recipient_name :: string
  recipient_email :: "string option"
  certificate_data :: "(string \<times> json) list option"
  certificate_url :: "string option"
  crt_status :: string
  crt_error_message :: "string option"
  crt_created_at :: string

text \<open>The tables and the objects of the storage bucket \<^verbatim>\<open>certificates\<close>.\<close>

record database =
  certificate_templates :: "certificate_template list"
  certificate_batches :: "certificate_batch list"
  certificates :: "certificate list"
  storage :: "string \<rightharpoonup> string"

text \<open>The two updates the function sends to the table \<^verbatim>\<open>certificates\<close>.\<close>

datatype certificate_update = Generated string | Failed string

fun apply_update :: "certificate_update \<Rightarrow> certificate \<Rightarrow> certificate" where
  "apply_update (Generated publicUrl) r = r\<lparr>crt_status := ''generated'', certificate_url := Some publicUrl\<rparr>"
| "apply_update (Failed msg) r = r\<lparr>crt_status := ''failed'', crt_error_message := Some msg\<rparr>"

text \<open>
  What the function does not decide: which calls to the backend fail and with what error,
  the public URL of a stored object, the clock, the host's engine for the patterns
  outside the embedded fragment (the error of the constructor, or the function from the
  subject and the replacement template to the result of the global replacement), and the
  host's text for the numbers that are not safe integers.
\<close>

record environment =
  host_regexp :: "string \<Rightarrow> js_error + (string \<Rightarrow> string \<Rightarrow> string)"
  Number_toString :: "int \<Rightarrow> int \<Rightarrow> string"
  select_batch_error :: "string \<Rightarrow> js_error option"
  select_certificates_error :: "string \<Rightarrow> js_error option"
  upload_error :: "string \<Rightarrow> string \<Rightarrow> js_error option"
  update_certificate_error :: "string \<Rightarrow> certificate_update \<Rightarrow> js_error option"
  update_batch_error :: "string \<Rightarrow> js_error option"
  getPublicUrl :: "string \<Rightarrow> string"
  now_ISOString :: string

section \<open>Placeholder substitution\<close>

text \<open>
  \<^verbatim>\<open>String(value)\<close>. A safe integer is printed in plain decimal notation (negative zero
  as \<^verbatim>\<open>0\<close>). The text of any other number (a fraction, an integer from \<open>2^53\<close> on,
  which is printed with its shortest digits that read back as the same double, or in
  exponent notation from \<open>10^21\<close> on) is the host's.
\<close>

fun js_String :: "environment \<Rightarrow> json \<Rightarrow> string" where
  "js_String env JNull = ''null''"
| "js_String env (JBool b) = (if b then ''true'' else ''false'')"
| "js_String env (JNumber m e) =
     (case integral m e of
        None \<Rightarrow> Number_toString env m e
      | Some n \<Rightarrow>
          if safe_integer n then (if n < 0 then CHR ''-'' # decimal (nat (- n)) else decimal (nat n))
          else Number_toString env m e)"
| "js_String env (JString s) = s"


datatype regexp = Fragment "regex_term list" | Host "string \<Rightarrow> string \<Rightarrow> string"

definition RegExp :: "environment \<Rightarrow> string \<Rightarrow> js_error + regexp" where
  "RegExp env pattern =
     (case parse_pattern pattern of
        SyntaxError why \<Rightarrow> Inl (JsError (''Invalid regular expression: /'' @ pattern @ ''/g: '' @ why))
      | Terms ts \<Rightarrow> Inr (Fragment ts)
      | Extended \<Rightarrow> (case host_regexp env pattern of Inl e \<Rightarrow> Inl e | Inr f \<Rightarrow> Inr (Host f)))"

fun replace :: "string \<Rightarrow> regexp \<Rightarrow> string \<Rightarrow> string" where
  "replace subject (Fragment ts) replacement = replace_from ts replacement [] subject"
| "replace subject (Host f) replacement = f subject replacement"

definition placeholder :: "string \<Rightarrow> string" where
  "placeholder key = ''{{'' @ key @ ''}}''"

text \<open>
  \<^verbatim>\<open>Object.entries(certificate.certificate_data).forEach(([key, value]) => ...)\<close>:
  each entry rewrites \<^verbatim>\<open>htmlContent\<close>. The call of \<^verbatim>\<open>replace\<close> on a null content
  throws before the pattern is built; an invalid pattern throws out of the loop.
\<close>

fun forEach_entry :: "environment \<Rightarrow> string option \<Rightarrow> (string \<times> json) list \<Rightarrow> js_error + string option" where
  "forEach_entry env htmlContent [] = Inr htmlContent"
| "forEach_entry env htmlContent ((key, v) # entries) =
     (case htmlContent of
        None \<Rightarrow> Inl (JsError (''Cannot read properties of null (reading '' @ quoted ''replace'' @ '')''))
      | Some content \<Rightarrow>
          (case RegExp env (placeholder key) of
             Inl e \<Rightarrow> Inl e
           | Inr re \<Rightarrow> forEach_entry env (Some (replace content re (js_String env v))) entries))"

text \<open>
  Lines 51 to 58: the content starts as the template's and is rewritten when the record
  has data. The batch row carries its template as the joined row, which is null when no
  template has the batch's \<^verbatim>\<open>template_id\<close>.
\<close>

definition htmlContent :: "environment \<Rightarrow> certificate_template option \<Rightarrow> certificate \<Rightarrow> js_error + string option" where
  "htmlContent env template c =
     (case template of
        None \<Rightarrow> Inl (JsError (''Cannot read properties of null (reading '' @ quoted ''template_content'' @ '')''))
      | Some t \<Rightarrow>
          (case certificate_data c of
             None \<Rightarrow> Inr (template_content t)
           | Some entries \<Rightarrow> forEach_entry env (template_content t) entries))"

section \<open>The generation function\<close>

definition certificateFileName :: "certificate \<Rightarrow> string" where
  "certificateFileName c = ''certificate_'' @ crt_id c @ ''.html''"

text \<open>\<^verbatim>\<open>new Blob([htmlContent])\<close>: a null part is the text \<^verbatim>\<open>null\<close>.\<close>

definition blob_text :: "string option \<Rightarrow> string" where
  "blob_text content = (case content of None \<Rightarrow> ''null'' | Some s \<Rightarrow> s)"

definition upload :: "environment \<Rightarrow> string \<Rightarrow> string \<Rightarrow> database \<Rightarrow> js_error option \<times> database" where
  "upload env path content db =
     (case upload_error env path content of
        Some e \<Rightarrow> (Some e, db)
      | None \<Rightarrow> (None, db\<lparr>storage := (storage db)(path \<mapsto> content)\<rparr>))"

text \<open>\<^verbatim>\<open>from('certificates').update(u).eq('id', id)\<close>\<close>

definition update_certificate :: "environment \<Rightarrow> string \<Rightarrow> certificate_update \<Rightarrow> database \<Rightarrow> js_error option \<times> database" where
  "update_certificate env cid u db =
     (case update_certificate_error env cid u of
        Some e \<Rightarrow> (Some e, db)
      | None \<Rightarrow>
          (None, db\<lparr>certificates := map (\<lambda>r. if crt_id r = cid then apply_update u r else r) (certificates db)\<rparr>))"

text \<open>
  The body of \<^verbatim>\<open>try\<close> for one record (lines 50 to 88). The result is the error thrown,
  if one is, and the store as the calls made so far have left it.
\<close>

definition try_certificate :: "environment \<Rightarrow> certificate_template option \<Rightarrow> certificate \<Rightarrow> database \<Rightarrow> js_error option \<times> database" where
  "try_certificate env template c db =
     (case htmlContent env template c of
        Inl e \<Rightarrow> (Some e, db)
      | Inr content \<Rightarrow>
          (case upload env (certificateFileName c) (blob_text content) db of
             (Some uploadError, db1) \<Rightarrow> (Some uploadError, db1)
           | (None, db1) \<Rightarrow>
               update_certificate env (crt_id c) (Generated (getPublicUrl env (certificateFileName c))) db1))"

text \<open>
  One turn of the loop (lines 48 to 105): on success the id joins
  \<^verbatim>\<open>processedCertificates\<close>; on a throw, the handler sends the update that marks the
  record failed and does not look at that update's result.
\<close>

definition process_certificate :: "environment \<Rightarrow> certificate_template option \<Rightarrow> string list \<times> database \<Rightarrow> certificate \<Rightarrow> string list \<times> database" where
  "process_certificate env template state c =
     (case state of
        (processedCertificates, db) \<Rightarrow>
          (case try_certificate env template c db of
             (None, db1) \<Rightarrow> (processedCertificates @ [crt_id c], db1)
           | (Some e, db1) \<Rightarrow>
               (processedCertificates, snd (update_certificate env (crt_id c) (Failed (message e)) db1))))"

text \<open>
  The two queries at the start. \<^verbatim>\<open>single()\<close> is an error unless exactly one row has
  the id.
\<close>

definition select_batch :: "environment \<Rightarrow> database \<Rightarrow> string \<Rightarrow> js_error + certificate_batch \<times> certificate_template option" where
  "select_batch env db batchId =
     (case select_batch_error env batchId of
        Some e \<Rightarrow> Inl e
      | None \<Rightarrow>
          (case filter (\<lambda>b. bat_id b = batchId) (certificate_batches db) of
             [b] \<Rightarrow> Inr (b, find (\<lambda>t. tpl_id t = template_id b) (certificate_templates db))
           | _ \<Rightarrow> Inl (JsError ''JSON object requested, multiple (or no) rows returned'')))"

definition select_certificates :: "environment \<Rightarrow> database \<Rightarrow> string \<Rightarrow> js_error + certificate list" where
  "select_certificates env db batchId =
     (case select_certificates_error env batchId of
        Some e \<Rightarrow> Inl e
      | None \<Rightarrow> Inr (filter (\<lambda>c. batch_id c = batchId \<and> crt_status c = ''pending'') (certificates db)))"

text \<open>The closing update of the batch (lines 108 to 115).\<close>

definition update_batch :: "environment \<Rightarrow> string \<Rightarrow> nat \<Rightarrow> nat \<Rightarrow> database \<Rightarrow> js_error option \<times> database" where
  "update_batch env batchId processed attempted db =
     (case update_batch_error env batchId of
        Some e \<Rightarrow> (Some e, db)
      | None \<Rightarrow>
          (None, db\<lparr>certificate_batches :=
             map (\<lambda>b. if bat_id b = batchId
                       then b\<lparr>bat_status := (if processed = attempted then ''completed'' else ''partial''),
                              generated_certificates := int processed,
                              bat_updated_at := now_ISOString env\<rparr>
                       else b)
               (certificate_batches db)\<rparr>))"

datatype response_body = PlainText string | Summary nat nat string | ErrorMessage string

record response =
  status :: nat
  body :: response_body

record request =
  req_method :: string
  req_json :: "js_error + string"

definition error_response :: "js_error \<Rightarrow> response" where
  "error_response e = \<lparr>status = 500, body = ErrorMessage (message e)\<rparr>"

text \<open>
  The handler. \<open>req_json\<close> is the result of \<^verbatim>\<open>await req.json()\<close>, an error or the
  \<^verbatim>\<open>batchId\<close> of the body. The result is the response and the store afterwards.
\<close>

definition serve :: "environment \<Rightarrow> database \<Rightarrow> request \<Rightarrow> response \<times> database" where
  "serve env db req =
     (if req_method req = ''OPTIONS'' then (\<lparr>status = 200, body = PlainText ''ok''\<rparr>, db)
      else
        (case req_json req of
           Inl e \<Rightarrow> (error_response e, db)
         | Inr batchId \<Rightarrow>
             (case select_batch env db batchId of
                Inl batchError \<Rightarrow> (error_response batchError, db)
              | Inr (batch, template) \<Rightarrow>
                  (case select_certificates env db batchId of
                     Inl certificatesError \<Rightarrow> (error_response certificatesError, db)
                   | Inr certs \<Rightarrow>
                       (case foldl (process_certificate env template) ([], db) certs of
                          (processedCertificates, db1) \<Rightarrow>
                            (case update_batch env batchId (length processedCertificates) (length certs) db1 of
                               (Some batchUpdateError, db2) \<Rightarrow> (error_response batchUpdateError, db2)
                             | (None, db2) \<Rightarrow>
                                 (\<lparr>status = 200,
                                   body = Summary (length processedCertificates) (length certs) batchId\<rparr>,
                                  db2)))))))"

section \<open>What one record's turn does\<close>

text \<open>
  The error thrown inside \<^verbatim>\<open>try\<close> for a record, if one is: by the rendering, by the
  upload, or by the update that marks the record generated. It does not depend on the
  store.
\<close>

definition thrown :: "environment \<Rightarrow> certificate_template option \<Rightarrow> certificate \<Rightarrow> js_error option" where
  "thrown env template c =
     (case htmlContent env template c of
        Inl e \<Rightarrow> Some e
      | Inr content \<Rightarrow>
          (case upload_error env (certificateFileName c) (blob_text content) of
             Some e \<Rightarrow> Some e
           | None \<Rightarrow> update_certificate_error env (crt_id c) (Generated (getPublicUrl env (certificateFileName c)))))"

text \<open>The text stored under the record's file name, if the upload is reached and accepted.\<close>

definition published :: "environment \<Rightarrow> certificate_template option \<Rightarrow> certificate \<Rightarrow> string option" where
  "published env template c =
     (case htmlContent env template c of
        Inl e \<Rightarrow> None
      | Inr content \<Rightarrow>
          (case upload_error env (certificateFileName c) (blob_text content) of
             Some e \<Rightarrow> None
           | None \<Rightarrow> Some (blob_text content)))"

text \<open>
  What the turn of record \<open>c\<close> does to a row with the id of \<open>c\<close>: the update that
  marks it generated, or the update that marks it failed where the table accepts that one.
\<close>

definition settle :: "environment \<Rightarrow> certificate_template option \<Rightarrow> certificate \<Rightarrow> certificate \<Rightarrow> certificate" where
  "settle env template c r =
     (case thrown env template c of
        None \<Rightarrow> apply_update (Generated (getPublicUrl env (certificateFileName c))) r
      | Some e \<Rightarrow>
          (case update_certificate_error env (crt_id c) (Failed (message e)) of
             None \<Rightarrow> apply_update (Failed (message e)) r
           | Some e' \<Rightarrow> r))"

lemma crt_id_apply_update [simp]: "crt_id (apply_update u r) = crt_id r"
  by (cases u) simp_all

lemma crt_id_settle [simp]: "crt_id (settle env template c r) = crt_id r"
  by (simp add: settle_def split: option.splits)

lemma batch_id_settle [simp]: "batch_id (settle env template c r) = batch_id r"
  by (simp add: settle_def split: option.splits)

section \<open>Notions for stating the properties\<close>

text \<open>The rows a run selects: those of the batch whose status is pending.\<close>

definition pending_of :: "string \<Rightarrow> certificate \<Rightarrow> bool" where
  "pending_of batchId c = (batch_id c = batchId \<and> crt_status c = ''pending'')"

text \<open>The number of the records whose turn throws nothing.\<close>

definition succeeded :: "environment \<Rightarrow> certificate_template option \<Rightarrow> certificate list \<Rightarrow> nat" where
  "succeeded env template cs = length (filter (\<lambda>c. thrown env template c = None) cs)"

text \<open>The store as the loop over the selected records leaves it.\<close>

definition after_loop :: "environment \<Rightarrow> certificate_template option \<Rightarrow> certificate list \<Rightarrow> database \<Rightarrow> database" where
  "after_loop env template cs db = snd (foldl (process_certificate env template) ([], db) cs)"

text \<open>A batch row with the three fields blanked that the closing update writes.\<close>

definition batch_frame :: "certificate_batch \<Rightarrow> certificate_batch" where
  "batch_frame b = b\<lparr>bat_status := [], generated_certificates := 0, bat_updated_at := []\<rparr>"

subsection \<open>Templates and data on which the substitution is literal\<close>

text \<open>The term that matches one given character once.\<close>

definition literal :: "char \<Rightarrow> regex_term" where
  "literal c = Term (PatternCharacter c) 1 (Some 1) True"

text \<open>
  A plain key has none of the characters that are pattern syntax, nor a brace, and does
  not make \<^verbatim>\<open>{key}\<close> a braced quantifier (as \<^verbatim>\<open>2024\<close> or \<^verbatim>\<open>1,2\<close> would).
\<close>

definition plain_character :: "char \<Rightarrow> bool" where
  "plain_character c = (\<not> beyond_fragment c \<and> c \<notin> set ''.*+?{}'')"

definition plain_key :: "string \<Rightarrow> bool" where
  "plain_key key = (list_all plain_character key \<and> braced_quantifier (CHR ''{'' # key @ ''}}'') = None)"

text \<open>
  A text is kept by every scan for a placeholder if no \<^verbatim>\<open>{{\<close> occurs in it and it does
  not end with \<^verbatim>\<open>{\<close>. A value is safe if its text is such a text and has no dollar
  sign, so that it is its own expansion as a replacement template.
\<close>

fun text_ok :: "string \<Rightarrow> bool" where
  "text_ok [] = True"
| "text_ok [c] = (c \<noteq> CHR ''{'')"
| "text_ok (c # d # r) = (\<not> (c = CHR ''{'' \<and> d = CHR ''{'') \<and> text_ok (d # r))"

definition safe_value :: "string \<Rightarrow> bool" where
  "safe_value s = (CHR ''$'' \<notin> set s \<and> text_ok s)"

definition plain_entry :: "environment \<Rightarrow> string \<times> json \<Rightarrow> bool" where
  "plain_entry env entry = (plain_key (fst entry) \<and> safe_value (js_String env (snd entry)))"

text \<open>
  A template as a list of segments: texts and markers \<^verbatim>\<open>{{key}}\<close>. It is well formed
  if its texts are of the kind above and the keys of its markers have no brace. The text
  of the template is the concatenation of its segments.
\<close>

definition brace_free :: "string \<Rightarrow> bool" where
  "brace_free s = (CHR ''{'' \<notin> set s \<and> CHR ''}'' \<notin> set s)"

datatype segment = Text string | Marker string

fun source :: "segment \<Rightarrow> string" where
  "source (Text s) = s"
| "source (Marker key) = placeholder key"

definition template_text :: "segment list \<Rightarrow> string" where
  "template_text segs = concat (map source segs)"

fun wf_segment :: "segment \<Rightarrow> bool" where
  "wf_segment (Text s) = text_ok s"
| "wf_segment (Marker key) = brace_free key"

text \<open>
  The substitution in the specification's words (section 4.1): every marker of a key
  present in the data is replaced by the string of the key's value, and the markers of
  absent keys are left as they are. \<open>fill1\<close> does it for one key and a given text,
  \<open>fill\<close> for all the keys of the data.
\<close>

fun fill1 :: "string \<Rightarrow> string \<Rightarrow> segment \<Rightarrow> segment" where
  "fill1 key v (Text s) = Text s"
| "fill1 key v (Marker k) = (if k = key then Text v else Marker k)"

fun fill :: "environment \<Rightarrow> (string \<times> json) list \<Rightarrow> segment \<Rightarrow> segment" where
  "fill env entries (Text s) = Text s"
| "fill env entries (Marker k) =
     (case map_of entries k of None \<Rightarrow> Marker k | Some v \<Rightarrow> Text (js_String env v))"

section \<open>A batch of three records\<close>

text \<open>
  The scenario of the specification: a template with two placeholders and a batch of
  three pending records, the second with no score and the third with no data at all.
\<close>

definition no_faults :: environment where
  "no_faults =
     \<lparr>host_regexp = (\<lambda>pattern. Inl (JsError (''Invalid regular expression: /'' @ pattern @ ''/g''))),
      Number_toString = (\<lambda>m e. ''NaN''),
      select_batch_error = (\<lambda>batchId. None),
      select_certificates_error = (\<lambda>batchId. None),
      upload_error = (\<lambda>path content. None),
      update_certificate_error = (\<lambda>cid u. None),
      update_batch_error = (\<lambda>batchId. None),
      getPublicUrl = (\<lambda>path. ''https://project.supabase.co/storage/v1/object/public/certificates/'' @ path),
      now_ISOString = ''2025-07-04T15:11:35.000Z''\<rparr>"

definition score_template :: certificate_template where
  "score_template =
     \<lparr>tpl_id = ''t1'', tpl_user_id = ''u1'', name = ''Score'', description = None,
      template_type = ''html'', template_content = Some ''Hello {{name}}, you scored {{score}}'',
      file_url = None, placeholders = [''name'', ''score''], is_active = True,
      tpl_created_at = ''2025-07-01T00:00:00.000Z'', tpl_updated_at = ''2025-07-01T00:00:00.000Z''\<rparr>"

definition batch_b1 :: certificate_batch where
  "batch_b1 =
     \<lparr>bat_id = ''b1'', bat_user_id = ''u1'', template_id = ''t1'', batch_name = ''Spring'',
      total_certificates = 3, generated_certificates = 0, bat_status = ''pending'',
      batch_zip_url = None, bat_error_message = None,
      bat_created_at = ''2025-07-02T00:00:00.000Z'', bat_updated_at = ''2025-07-02T00:00:00.000Z''\<rparr>"

definition pending_certificate :: "string \<Rightarrow> (string \<times> json) list option \<Rightarrow> certificate" where
  "pending_certificate cid entries =
     \<lparr>crt_id = cid, batch_id = ''b1'', crt_user_id = ''u1'', recipient_name = ''Unknown'',
      recipient_email = None, certificate_data = entries, certificate_url = None,
      crt_status = ''pending'', crt_error_message = None, crt_created_at = ''2025-07-02T00:00:00.000Z''\<rparr>"

definition certificate_c1 :: certificate where
  "certificate_c1 = pending_certificate ''c1'' (Some [(''name'', JString ''Ana''), (''score'', JNumber 95 0)])"

definition certificate_c2 :: certificate where
  "certificate_c2 = pending_certificate ''c2'' (Some [(''name'', JString ''Ana'')])"

definition certificate_c3 :: certificate where
  "certificate_c3 = pending_certificate ''c3'' None"

definition three_pending :: database where
  "three_pending =
     \<lparr>certificate_templates = [score_template], certificate_batches = [batch_b1],
      certificates = [certificate_c1, certificate_c2, certificate_c3], storage = Map.empty\<rparr>"

definition score_segments :: "segment list" where
  "score_segments = [Text ''Hello '', Marker ''name'', Text '', you scored '', Marker ''score'']"

text \<open>A template in which one marker occurs twice, and a record for it.\<close>

definition farewell_segments :: "segment list" where
  "farewell_segments =
     [Text ''Hello '', Marker ''name'', Text '', you scored '', Marker ''score'',
      Text '' (passed: '', Marker ''passed'', Text ''). Goodbye, '', Marker ''name'']"

definition farewell_template :: certificate_template where
  "farewell_template = score_template\<lparr>template_content :=
     Some ''Hello {{name}}, you scored {{score}} (passed: {{passed}}). Goodbye, {{name}}''\<rparr>"

definition certificate_c4 :: certificate where
  "certificate_c4 = pending_certificate ''c4''
     (Some [(''name'', JString ''Ana''), (''score'', JNumber 95 0), (''passed'', JBool True)])"

definition run_b1 :: request where
  "run_b1 = \<lparr>req_method = ''POST'', req_json = Inr ''b1''\<rparr>"

text \<open>Environments in which one kind of call fails, and two later states of the batch.\<close>

definition publish_fails_c2 :: environment where
  "publish_fails_c2 = no_faults\<lparr>upload_error := (\<lambda>path content.
      if path = ''certificate_c2.html'' then Some (JsError ''The object exceeded the maximum allowed size'') else None)\<rparr>"

definition closing_update_fails :: environment where
  "closing_update_fails = publish_fails_c2\<lparr>update_batch_error := (\<lambda>batchId. Some (JsError ''connection timed out''))\<rparr>"

definition updates_rejected :: environment where
  "updates_rejected = no_faults\<lparr>update_certificate_error := (\<lambda>cid u. Some (JsError ''permission denied for table certificates''))\<rparr>"

definition records_query_fails :: environment where
  "records_query_fails = no_faults\<lparr>select_certificates_error :=
     (\<lambda>batchId. Some (JsError ''canceling statement due to statement timeout''))\<rparr>"

definition nothing_pending :: database where
  "nothing_pending = three_pending\<lparr>certificates := [certificate_c1\<lparr>crt_status := ''generated''\<rparr>]\<rparr>"

definition after_partial_run :: database where
  "after_partial_run = three_pending\<lparr>certificates :=
     [certificate_c1\<lparr>crt_status := ''generated'', certificate_url := Some ''https://project.supabase.co/storage/v1/object/public/certificates/certificate_c1.html''\<rparr>,
      certificate_c2\<lparr>crt_status := ''failed'', crt_error_message := Some ''The object exceeded the maximum allowed size''\<rparr>,
      certificate_c3]\<rparr>"

section \<open>The loop, record by record\<close>

lemma map_if_same [simp]: "map (\<lambda>r. if P r then r else r) xs = xs"
  by (induction xs) auto

lemma process_certificate_eq:
  "process_certificate env template (processed, db) c =
     (if thrown env template c = None then processed @ [crt_id c] else processed,
      db\<lparr>storage := (case published env template c of
                        None \<Rightarrow> storage db
                      | Some content \<Rightarrow> (storage db)(certificateFileName c \<mapsto> content)),
         certificates := map (\<lambda>r. if crt_id r = crt_id c then settle env template c r else r) (certificates db)\<rparr>)"
proof (cases "htmlContent env template c")
  case (Inl e)
  then show ?thesis
    by (cases "update_certificate_error env (crt_id c) (Failed (message e))")
       (simp_all add: process_certificate_def try_certificate_def thrown_def published_def settle_def
          update_certificate_def cong: if_cong)
next
  case (Inr content)
  show ?thesis
  proof (cases "upload_error env (certificateFileName c) (blob_text content)")
    case (Some e)
    with Inr show ?thesis
      by (cases "update_certificate_error env (crt_id c) (Failed (message e))")
         (simp_all add: process_certificate_def try_certificate_def thrown_def published_def settle_def
            upload_def update_certificate_def cong: if_cong)
  next
    case None
    show ?thesis
    proof (cases "update_certificate_error env (crt_id c) (Generated (getPublicUrl env (certificateFileName c)))")
      case ok: None
      with Inr None show ?thesis
        by (simp add: process_certificate_def try_certificate_def thrown_def published_def settle_def
              upload_def update_certificate_def cong: if_cong)
    next
      case (Some e)
      with Inr None show ?thesis
        by (cases "update_certificate_error env (crt_id c) (Failed (message e))")
           (simp_all add: process_certificate_def try_certificate_def thrown_def published_def settle_def
              upload_def update_certificate_def cong: if_cong)
    qed
  qed
qed


lemma loop_processed:
  "fst (foldl (process_certificate env template) (processed, db) cs) =
     processed @ map crt_id (filter (\<lambda>c. thrown env template c = None) cs)"
  by (induction cs arbitrary: processed db) (simp_all add: process_certificate_eq)

lemma loop_batches:
  "certificate_batches (snd (foldl (process_certificate env template) (processed, db) cs)) = certificate_batches db"
  by (induction cs arbitrary: processed db) (simp_all add: process_certificate_eq)

lemma loop_templates:
  "certificate_templates (snd (foldl (process_certificate env template) (processed, db) cs)) = certificate_templates db"
  by (induction cs arbitrary: processed db) (simp_all add: process_certificate_eq)

lemma loop_certificates:
  "distinct (map crt_id cs) \<Longrightarrow>
   certificates (snd (foldl (process_certificate env template) (processed, db) cs)) =
     map (\<lambda>r. case find (\<lambda>c. crt_id c = crt_id r) cs of
                 None \<Rightarrow> r
               | Some c \<Rightarrow> settle env template c r)
       (certificates db)"
proof (induction cs arbitrary: processed db)
  case Nil
  then show ?case by simp
next
  case (Cons c cs)
  have fresh: "find (\<lambda>d. crt_id d = crt_id c) cs = None"
  proof -
    have "crt_id c \<notin> crt_id ` set cs"
      using Cons.prems by simp
    then have "\<forall>d \<in> set cs. crt_id d \<noteq> crt_id c"
      by (metis imageI)
    then show ?thesis
      by (simp add: find_None_iff)
  qed
  have "distinct (map crt_id cs)"
    using Cons.prems by simp
  then show ?case
    by (simp add: process_certificate_eq Cons.IH fresh o_def cong: if_cong)
qed

lemma certificateFileName_inj [simp]:
  "certificateFileName c = certificateFileName d \<longleftrightarrow> crt_id c = crt_id d"
  by (simp add: certificateFileName_def)

lemma loop_storage_other:
  "path \<notin> certificateFileName ` set cs \<Longrightarrow>
   storage (snd (foldl (process_certificate env template) (processed, db) cs)) path = storage db path"
  by (induction cs arbitrary: processed db)
     (auto simp: process_certificate_eq split: option.splits)

lemma loop_storage:
  "distinct (map crt_id cs) \<Longrightarrow> c \<in> set cs \<Longrightarrow> published env template c = Some content \<Longrightarrow>
   storage (snd (foldl (process_certificate env template) (processed, db) cs)) (certificateFileName c) = Some content"
proof (induction cs arbitrary: processed db)
  case Nil
  then show ?case by simp
next
  case (Cons d cs)
  show ?case
  proof (cases "c \<in> set cs")
    case True
    with Cons show ?thesis
      by (simp add: process_certificate_eq)
  next
    case False
    with Cons.prems have cd: "c = d" by simp
    have "certificateFileName c \<notin> certificateFileName ` set cs"
      using Cons.prems cd by auto
    then show ?thesis
      using Cons.prems cd by (simp add: process_certificate_eq loop_storage_other)
  qed
qed


lemma find_selected:
  "distinct (map crt_id rows) \<Longrightarrow> r \<in> set rows \<Longrightarrow>
   find (\<lambda>c. crt_id c = crt_id r) (filter P rows) = (if P r then Some r else None)"
proof (induction rows)
  case Nil
  then show ?case by simp
next
  case (Cons x xs)
  have fresh: "\<forall>d \<in> set xs. crt_id d \<noteq> crt_id x"
    using Cons.prems(1) by (metis distinct.simps(2) imageI list.simps(9) set_map)
  show ?case
  proof (cases "r = x")
    case True
    have "find (\<lambda>c. crt_id c = crt_id x) (filter P xs) = None"
      using fresh by (simp add: find_None_iff)
    with True show ?thesis by simp
  next
    case False
    with Cons.prems have r: "r \<in> set xs" by simp
    then have "crt_id x \<noteq> crt_id r"
      using fresh by metis
    then show ?thesis
      using Cons.IH Cons.prems(1) r by simp
  qed
qed

lemma select_certificates_Inr:
  "select_certificates env db batchId = Inr cs \<Longrightarrow> cs = filter (pending_of batchId) (certificates db)"
  by (auto simp: select_certificates_def pending_of_def [abs_def] split: option.splits)

lemma loop_certificates_selected:
  assumes "distinct (map crt_id (certificates db))"
  shows "certificates (snd (foldl (process_certificate env template) (processed, db) (filter P (certificates db)))) =
           map (\<lambda>r. if P r then settle env template r r else r) (certificates db)"
proof -
  have "distinct (map crt_id (filter P (certificates db)))"
    using assms by (simp add: distinct_map_filter)
  then show ?thesis
    using assms by (simp add: loop_certificates find_selected cong: map_cong)
qed


lemma serve_run:
  assumes "req_method req \<noteq> ''OPTIONS''" and "req_json req = Inr batchId"
    and "select_batch env db batchId = Inr (b, template)"
    and "select_certificates env db batchId = Inr cs"
  shows "serve env db req =
     (case update_batch env batchId (succeeded env template cs) (length cs) (after_loop env template cs db) of
        (Some e, db2) \<Rightarrow> (error_response e, db2)
      | (None, db2) \<Rightarrow> (\<lparr>status = 200, body = Summary (succeeded env template cs) (length cs) batchId\<rparr>, db2))"
proof -
  obtain p db1 where loop: "foldl (process_certificate env template) ([], db) cs = (p, db1)"
    by (cases "foldl (process_certificate env template) ([], db) cs")
  have "p = map crt_id (filter (\<lambda>c. thrown env template c = None) cs)"
    using loop_processed [of env template "[]" db cs] loop by simp
  then have p: "length p = succeeded env template cs"
    by (simp add: succeeded_def)
  have db1: "after_loop env template cs db = db1"
    by (simp add: after_loop_def loop)
  show ?thesis
    using assms by (simp add: serve_def loop p db1 split: prod.splits option.splits)
qed

lemma update_batch_frame:
  "map batch_frame (certificate_batches (snd (update_batch env batchId p n db))) =
   map batch_frame (certificate_batches db)"
  by (simp add: update_batch_def batch_frame_def split: option.splits)

lemma update_batch_others:
  "certificates (snd (update_batch env batchId p n db)) = certificates db"
  "storage (snd (update_batch env batchId p n db)) = storage db"
  "certificate_templates (snd (update_batch env batchId p n db)) = certificate_templates db"
  by (simp_all add: update_batch_def split: option.splits)

section \<open>A whole run\<close>

lemma run_store:
  assumes "req_method req \<noteq> ''OPTIONS''" and "req_json req = Inr batchId"
    and "select_batch env db batchId = Inr (b, template)"
    and "select_certificates env db batchId = Inr cs"
  shows "snd (serve env db req) =
           snd (update_batch env batchId (succeeded env template cs) (length cs) (after_loop env template cs db))"
  using serve_run [OF assms] by (simp split: prod.splits option.splits)

lemma run_response:
  assumes "req_method req \<noteq> ''OPTIONS''" and "req_json req = Inr batchId"
    and "select_batch env db batchId = Inr (b, template)"
    and "select_certificates env db batchId = Inr cs"
  shows "fst (serve env db req) =
           (case update_batch_error env batchId of
              Some e \<Rightarrow> error_response e
            | None \<Rightarrow> \<lparr>status = 200, body = Summary (succeeded env template cs) (length cs) batchId\<rparr>)"
  using serve_run [OF assms] by (simp add: update_batch_def split: prod.splits option.splits)

lemma run_certificates:
  assumes "req_method req \<noteq> ''OPTIONS''" and "req_json req = Inr batchId"
    and "select_batch env db batchId = Inr (b, template)"
    and "select_certificates env db batchId = Inr cs"
    and "distinct (map crt_id (certificates db))"
  shows "certificates (snd (serve env db req)) =
           map (\<lambda>r. if pending_of batchId r then settle env template r r else r) (certificates db)"
proof -
  have cs: "cs = filter (pending_of batchId) (certificates db)"
    using assms(4) by (rule select_certificates_Inr)
  show ?thesis
    unfolding run_store [OF assms(1-4)] update_batch_others after_loop_def cs
    using assms(5) by (rule loop_certificates_selected)
qed

lemma find_by_id:
  "distinct (map crt_id rows) \<Longrightarrow> c \<in> set rows \<Longrightarrow> find (\<lambda>r. crt_id r = crt_id c) rows = Some c"
  using find_selected [of rows c "\<lambda>r. True"] by simp

lemma find_map_settled:
  assumes "\<And>r. crt_id (g r) = crt_id r"
  shows "find (\<lambda>r. crt_id r = k) (map g rows) = map_option g (find (\<lambda>r. crt_id r = k) rows)"
  by (induction rows) (simp_all add: assms)

lemma run_row:
  assumes "req_method req \<noteq> ''OPTIONS''" and "req_json req = Inr batchId"
    and "select_batch env db batchId = Inr (b, template)"
    and "select_certificates env db batchId = Inr cs"
    and "distinct (map crt_id (certificates db))"
    and "c \<in> set cs"
  shows "find (\<lambda>r. crt_id r = crt_id c) (certificates (snd (serve env db req))) = Some (settle env template c c)"
proof -
  have cs: "cs = filter (pending_of batchId) (certificates db)"
    using assms(4) by (rule select_certificates_Inr)
  have c: "c \<in> set (certificates db)" "pending_of batchId c"
    using assms(6) cs by simp_all
  have "find (\<lambda>r. crt_id r = crt_id c)
          (map (\<lambda>r. if pending_of batchId r then settle env template r r else r) (certificates db)) =
        map_option (\<lambda>r. if pending_of batchId r then settle env template r r else r)
          (find (\<lambda>r. crt_id r = crt_id c) (certificates db))"
    by (rule find_map_settled) simp
  then show ?thesis
    unfolding run_certificates [OF assms(1-5)]
    using c assms(5) by (simp add: find_by_id)
qed

lemma run_storage_other:
  assumes "req_method req \<noteq> ''OPTIONS''" and "req_json req = Inr batchId"
    and "select_batch env db batchId = Inr (b, template)"
    and "select_certificates env db batchId = Inr cs"
    and "distinct (map crt_id (certificates db))"
    and "r \<in> set (certificates db)" and "\<not> pending_of batchId r"
  shows "storage (snd (serve env db req)) (certificateFileName r) = storage db (certificateFileName r)"
proof -
  have cs: "cs = filter (pending_of batchId) (certificates db)"
    using assms(4) by (rule select_certificates_Inr)
  have "certificateFileName r \<notin> certificateFileName ` set cs"
  proof
    assume "certificateFileName r \<in> certificateFileName ` set cs"
    then obtain c where c: "c \<in> set cs" "crt_id c = crt_id r"
      by auto
    then have "c \<in> set (certificates db)" "pending_of batchId c"
      using cs by simp_all
    moreover have "inj_on crt_id (set (certificates db))"
      using assms(5) by (simp add: distinct_map)
    ultimately have "c = r"
      using c(2) assms(6) by (auto dest: inj_onD)
    with \<open>pending_of batchId c\<close> assms(7) show False by simp
  qed
  then show ?thesis
    unfolding run_store [OF assms(1-4)] update_batch_others after_loop_def
    by (rule loop_storage_other)
qed

lemma run_storage:
  assumes "req_method req \<noteq> ''OPTIONS''" and "req_json req = Inr batchId"
    and "select_batch env db batchId = Inr (b, template)"
    and "select_certificates env db batchId = Inr cs"
    and "distinct (map crt_id (certificates db))"
    and "c \<in> set cs" and "published env template c = Some content"
  shows "storage (snd (serve env db req)) (certificateFileName c) = Some content"
proof -
  have cs: "cs = filter (pending_of batchId) (certificates db)"
    using assms(4) by (rule select_certificates_Inr)
  have "distinct (map crt_id cs)"
    unfolding cs using assms(5) by (simp add: distinct_map_filter)
  then show ?thesis
    unfolding run_store [OF assms(1-4)] update_batch_others after_loop_def
    using assms(6,7) by (rule loop_storage)
qed

section \<open>Substitution into a well-formed template\<close>

lemma quantifier_None:
  "s = [] \<or> hd s \<notin> set ''*+?{'' \<Longrightarrow> quantifier s = None"
  by (cases s) (auto simp: quantifier_def quantifier_prefix_def braced_quantifier_def)

lemma quantifier_prefix_None:
  "c \<notin> set ''*+?{'' \<Longrightarrow> quantifier_prefix (c # r) = None"
  by (auto simp: quantifier_prefix_def braced_quantifier_def)

lemma parse_closing: "parse_pattern ''}}'' = Terms [literal CHR ''}'', literal CHR ''}'']"
  by (simp add: parse_pattern.simps quantifier_None quantifier_prefix_None beyond_fragment_def
        with_term_def literal_def)

lemma parse_plain:
  "list_all plain_character key \<Longrightarrow> parse_pattern (key @ ''}}'') = Terms (map literal (key @ ''}}''))"
proof (induction key)
  case Nil
  then show ?case using parse_closing by simp
next
  case (Cons c key)
  have c: "\<not> beyond_fragment c" "c \<notin> set ''*+?{''" "c \<noteq> CHR ''.''"
    using Cons.prems by (auto simp: plain_character_def)
  have "key @ ''}}'' = [] \<or> hd (key @ ''}}'') \<notin> set ''*+?{''"
    using Cons.prems by (cases key) (auto simp: plain_character_def)
  then have q: "quantifier (key @ ''}}'') = None"
    by (rule quantifier_None)
  have "parse_pattern (key @ ''}}'') = Terms (map literal (key @ ''}}''))"
    using Cons by simp
  then show ?case
    using c q quantifier_prefix_None [OF c(2)]
    by (simp add: parse_pattern.simps(2) [of c] with_term_def literal_def)
qed

lemma parse_placeholder:
  assumes "plain_key key"
  shows "parse_pattern (placeholder key) = Terms (map literal (placeholder key))"
proof -
  have plain: "list_all plain_character key" and nq: "braced_quantifier (CHR ''{'' # key @ ''}}'') = None"
    using assms by (simp_all add: plain_key_def)
  have rest: "parse_pattern (key @ ''}}'') = Terms (map literal (key @ ''}}''))"
    using plain by (rule parse_plain)
  have "key @ ''}}'' = [] \<or> hd (key @ ''}}'') \<notin> set ''*+?{''"
    using plain by (cases key) (auto simp: plain_character_def)
  then have q0: "quantifier (key @ ''}}'') = None"
    by (rule quantifier_None)
  have q1: "quantifier_prefix (CHR ''{'' # key @ ''}}'') = None"
    using nq by (simp add: quantifier_prefix_def)
  then have q1': "quantifier (CHR ''{'' # key @ ''}}'') = None"
    by (simp add: quantifier_def)
  have inner: "parse_pattern (CHR ''{'' # key @ ''}}'') = Terms (map literal (CHR ''{'' # key @ ''}}''))"
    using rest q0 q1
    by (simp add: parse_pattern.simps(2) [of "CHR ''{''"] beyond_fragment_def with_term_def literal_def)
  have q2: "quantifier_prefix (CHR ''{'' # CHR ''{'' # key @ ''}}'') = None"
    by (simp add: quantifier_prefix_def braced_quantifier_def is_digit_def)
  show ?thesis
    using inner q1' q2
    by (simp add: placeholder_def parse_pattern.simps(2) [of "CHR ''{''" "CHR ''{'' # key @ ''}}''"]
          beyond_fragment_def with_term_def literal_def)
qed

lemma match_literal:
  "match_here (map literal p) s = (if prefix p s then Some (length p) else None)"
proof (induction p arbitrary: s)
  case Nil
  then show ?case by simp
next
  case (Cons c p)
  show ?case
  proof (cases s)
    case Nil
    then show ?thesis by (simp add: literal_def repetitions_def)
  next
    case (Cons d s')
    then show ?thesis
      using Cons.IH [of s'] by (simp add: literal_def repetitions_def)
  qed
qed

lemma get_substitution_plain:
  "CHR ''$'' \<notin> set r \<Longrightarrow> get_substitution m b a r = r"
  by (induction m b a r rule: get_substitution.induct) auto


lemma replace_from_no_match:
  "match_here re (c # r) = None \<Longrightarrow>
   replace_from re v pre (c # r) = c # replace_from re v (pre @ [c]) r"
  by (subst replace_from.simps) simp

lemma replace_from_match:
  "match_here re s = Some n \<Longrightarrow> n \<noteq> 0 \<Longrightarrow>
   replace_from re v pre s =
     get_substitution (take n s) pre (drop n s) v @ replace_from re v (pre @ take n s) (drop n s)"
  by (subst replace_from.simps) simp

lemma replace_from_end:
  "match_here re [] = None \<Longrightarrow> replace_from re v pre [] = []"
  by (subst replace_from.simps) simp

lemma not_prefix_text:
  "text_ok (c # s) \<Longrightarrow> \<not> prefix (placeholder key) (c # s @ rest)"
  by (cases s) (auto simp: placeholder_def)

lemma text_ok_tl: "text_ok (c # s) \<Longrightarrow> text_ok s"
  by (cases s) auto

lemma replace_text:
  "text_ok s \<Longrightarrow>
   replace_from (map literal (placeholder key)) v pre (s @ rest) =
     s @ replace_from (map literal (placeholder key)) v (pre @ s) rest"
proof (induction s arbitrary: pre)
  case Nil
  then show ?case by simp
next
  case (Cons c s)
  have "match_here (map literal (placeholder key)) (c # s @ rest) = None"
    using not_prefix_text [OF Cons.prems] by (simp add: match_literal)
  then have "replace_from (map literal (placeholder key)) v pre (c # s @ rest) =
             c # replace_from (map literal (placeholder key)) v (pre @ [c]) (s @ rest)"
    by (rule replace_from_no_match)
  then show ?case
    using Cons.IH [OF text_ok_tl [OF Cons.prems]] by simp
qed

lemma brace_free_text_ok:
  "brace_free k \<Longrightarrow> text_ok (CHR ''{'' # k @ ''}}'')"
proof -
  have "CHR ''{'' \<notin> set k \<Longrightarrow> text_ok (k @ ''}}'') \<and> (k @ ''}}'' \<noteq> [] \<and> hd (k @ ''}}'') \<noteq> CHR ''{'')"
  proof (induction k)
    case Nil
    then show ?case by simp
  next
    case (Cons c k)
    then show ?case by (cases "k @ ''}}''") auto
  qed
  then show "brace_free k \<Longrightarrow> text_ok (CHR ''{'' # k @ ''}}'')"
    by (cases "k @ ''}}''") (auto simp: brace_free_def)
qed

lemma prefix_closing:
  "CHR ''}'' \<notin> set k \<Longrightarrow> CHR ''}'' \<notin> set k' \<Longrightarrow> prefix (k @ ''}}'') (k' @ ''}}'' @ rest) \<Longrightarrow> k = k'"
proof (induction k arbitrary: k')
  case Nil
  then show ?case by (cases k') auto
next
  case (Cons c k)
  then show ?case by (cases k') auto
qed

lemma prefix_placeholder:
  "brace_free k \<Longrightarrow> brace_free k' \<Longrightarrow>
   prefix (placeholder k) (placeholder k' @ rest) \<longleftrightarrow> k = k'"
  using prefix_closing [of k k' rest] by (auto simp: placeholder_def brace_free_def)

lemma replace_marker_same:
  assumes "CHR ''$'' \<notin> set v"
  shows "replace_from (map literal (placeholder key)) v pre (placeholder key @ rest) =
           v @ replace_from (map literal (placeholder key)) v (pre @ placeholder key) rest"
proof -
  have m: "match_here (map literal (placeholder key)) (placeholder key @ rest) = Some (length (placeholder key))"
    by (simp add: match_literal)
  have n: "length (placeholder key) \<noteq> 0"
    by (simp add: placeholder_def)
  show ?thesis
    using replace_from_match [OF m n, of v pre] assms by (simp add: get_substitution_plain)
qed

lemma placeholder_nonempty [simp]: "placeholder key \<noteq> []"
  by (simp add: placeholder_def)

lemma replace_marker_other:
  assumes "brace_free key" and "brace_free k" and "k \<noteq> key"
  shows "replace_from (map literal (placeholder key)) v pre (placeholder k @ rest) =
           placeholder k @ replace_from (map literal (placeholder key)) v (pre @ placeholder k) rest"
proof -
  have split: "placeholder k @ rest = CHR ''{'' # (CHR ''{'' # k @ ''}}'') @ rest"
    and whole: "placeholder k = CHR ''{'' # (CHR ''{'' # k @ ''}}'')"
    by (simp_all add: placeholder_def)
  have "\<not> prefix (placeholder key) (placeholder k @ rest)"
    using assms by (simp add: prefix_placeholder)
  then have "match_here (map literal (placeholder key)) (placeholder k @ rest) = None"
    by (simp add: match_literal)
  then have "match_here (map literal (placeholder key)) (CHR ''{'' # (CHR ''{'' # k @ ''}}'') @ rest) = None"
    unfolding split .
  then have "replace_from (map literal (placeholder key)) v pre (CHR ''{'' # (CHR ''{'' # k @ ''}}'') @ rest) =
             CHR ''{'' # replace_from (map literal (placeholder key)) v (pre @ ''{'') ((CHR ''{'' # k @ ''}}'') @ rest)"
    by (rule replace_from_no_match)
  also have "replace_from (map literal (placeholder key)) v (pre @ ''{'') ((CHR ''{'' # k @ ''}}'') @ rest) =
             (CHR ''{'' # k @ ''}}'') @ replace_from (map literal (placeholder key)) v ((pre @ ''{'') @ (CHR ''{'' # k @ ''}}'')) rest"
    using brace_free_text_ok [OF assms(2)] by (rule replace_text)
  finally show ?thesis
    unfolding split whole by simp
qed

lemma replace_segments:
  assumes "brace_free key" and "CHR ''$'' \<notin> set v"
  shows "list_all wf_segment segs \<Longrightarrow>
         replace_from (map literal (placeholder key)) v pre (template_text segs) =
           template_text (map (fill1 key v) segs)"
proof (induction segs arbitrary: pre)
  case Nil
  have "match_here (map literal (placeholder key)) [] = None"
    by (simp add: match_literal)
  then show ?case
    by (simp add: template_text_def replace_from_end)
next
  case (Cons seg segs)
  have IH: "replace_from (map literal (placeholder key)) v pre' (template_text segs) =
              template_text (map (fill1 key v) segs)" for pre'
    using Cons by simp
  show ?case
  proof (cases seg)
    case (Text s)
    then have "text_ok s" using Cons.prems by simp
    then show ?thesis
      using Text replace_text [of s key v pre "template_text segs"] IH
      by (simp add: template_text_def)
  next
    case (Marker k)
    then have k: "brace_free k" using Cons.prems by simp
    show ?thesis
    proof (cases "k = key")
      case True
      then show ?thesis
        using Marker replace_marker_same [OF assms(2), of key pre "template_text segs"] IH
        by (simp add: template_text_def)
    next
      case False
      then show ?thesis
        using Marker replace_marker_other [OF assms(1) k False, of v pre "template_text segs"] IH
        by (simp add: template_text_def)
    qed
  qed
qed


lemma plain_key_brace_free: "plain_key key \<Longrightarrow> brace_free key"
  by (auto simp: plain_key_def brace_free_def plain_character_def list_all_iff)

lemma RegExp_plain:
  "plain_key key \<Longrightarrow> RegExp env (placeholder key) = Inr (Fragment (map literal (placeholder key)))"
  by (simp add: RegExp_def parse_placeholder)

lemma fill_fill1:
  "fill env entries (fill1 key (js_String env v) seg) = fill env ((key, v) # entries) seg"
  by (cases seg) auto

lemma wf_fill1:
  "text_ok v \<Longrightarrow> wf_segment seg \<Longrightarrow> wf_segment (fill1 key v seg)"
  by (cases seg) auto

lemma forEach_segments:
  "list_all wf_segment segs \<Longrightarrow> list_all (plain_entry env) entries \<Longrightarrow>
   forEach_entry env (Some (template_text segs)) entries =
     Inr (Some (template_text (map (fill env entries) segs)))"
proof (induction entries arbitrary: segs)
  case Nil
  have "map (fill env []) segs = segs"
  proof (rule map_idI)
    fix seg show "fill env [] seg = seg" by (cases seg) auto
  qed
  then show ?case by simp
next
  case (Cons entry entries)
  obtain key v where entry: "entry = (key, v)" by (cases entry)
  have key: "plain_key key" and v: "CHR ''$'' \<notin> set (js_String env v)" "text_ok (js_String env v)"
    using Cons.prems(2) by (simp_all add: entry plain_entry_def safe_value_def)
  have step: "replace_from (map literal (placeholder key)) (js_String env v) [] (template_text segs) =
              template_text (map (fill1 key (js_String env v)) segs)"
    using plain_key_brace_free [OF key] v(1) Cons.prems(1) by (rule replace_segments)
  have wf: "list_all wf_segment (map (fill1 key (js_String env v)) segs)"
    using Cons.prems(1) v(2) by (simp add: list_all_iff wf_fill1)
  have "forEach_entry env (Some (template_text segs)) (entry # entries) =
        forEach_entry env (Some (template_text (map (fill1 key (js_String env v)) segs))) entries"
    by (simp add: entry RegExp_plain [OF key] step)
  also have "\<dots> = Inr (Some (template_text (map (fill env entries) (map (fill1 key (js_String env v)) segs))))"
    using wf Cons.prems(2) by (intro Cons.IH) simp_all
  finally show ?case
    by (simp add: entry fill_fill1 o_def)
qed

lemma fill_idem: "fill env entries (fill env entries seg) = fill env entries seg"
  by (cases seg) (auto split: option.splits)

lemma wf_fill:
  assumes "list_all (plain_entry env) entries" and "wf_segment seg"
  shows "wf_segment (fill env entries seg)"
proof (cases seg)
  case (Text s)
  with assms show ?thesis by simp
next
  case (Marker k)
  show ?thesis
  proof (cases "map_of entries k")
    case None
    with Marker assms show ?thesis by simp
  next
    case (Some v)
    then have "(k, v) \<in> set entries" by (rule map_of_SomeD)
    then have "plain_entry env (k, v)" using assms(1) by (simp add: list_all_iff)
    with Marker Some show ?thesis by (simp add: plain_entry_def safe_value_def)
  qed
qed

text \<open>
  In particular the marker of a key that the data does not have stays where it is, as long
  as the keys of the data are plain.
\<close>

lemma absent_marker_kept:
  assumes "list_all wf_segment (pre @ [Marker key] @ post)" and "list_all (plain_entry env) entries"
    and "key \<notin> fst ` set entries"
  shows "forEach_entry env (Some (template_text (pre @ [Marker key] @ post))) entries =
           Inr (Some (template_text (map (fill env entries) pre) @ placeholder key @
                      template_text (map (fill env entries) post)))"
proof -
  have "map_of entries key = None"
    using assms(3) by (simp add: map_of_eq_None_iff)
  then show ?thesis
    using forEach_segments [OF assms(1,2)] by (simp add: template_text_def)
qed

section \<open>The text of a number\<close>

text \<open>
  A safe integer is printed digit by digit, whatever the host; \<open>2^60\<close> and 95.5 are
  not safe integers, and their text is the host's.
\<close>

lemma String_safe_integer:
  "safe_integer n \<Longrightarrow>
   js_String env (JNumber n 0) = (if n < 0 then CHR ''-'' # decimal (nat (- n)) else decimal (nat n))"
  by (simp add: integral_def)

lemma String_examples:
  "js_String env (JNumber 95 0) = ''95'' \<and>
   js_String env (JNumber 190 (- 1)) = ''95'' \<and>
   js_String env (JNumber (- 120) 0) = ''-120'' \<and>
   js_String env (JNumber 0 0) = ''0''"
  by code_simp

lemma String_beyond_safe_integers:
  "js_String env (JNumber (2 ^ 60) 0) = Number_toString env (2 ^ 60) 0 \<and>
   js_String env (JNumber 191 (- 1)) = Number_toString env 191 (- 1)"
  by (simp add: integral_def safe_integer_def)

section \<open>Keys and values that are read as syntax\<close>

text \<open>
  The key goes into the pattern and the value into the replacement template as they are.
  A value with a dollar pattern is expanded; a key of digits turns the second brace into a
  quantifier, so that the marker is not found; a key with a doubled quantifier makes the
  constructor throw, which fails the record; a dot in a key makes it match the marker of
  another key, so that the order of the entries decides.
\<close>

lemma dollar_in_value_is_a_pattern:
  "forEach_entry no_faults (Some ''Hello {{name}}'') [(''name'', JString ''$&'')] = Inr (Some ''Hello {{name}}'') \<and>
   forEach_entry no_faults (Some ''Fee: {{fee}}'') [(''fee'', JString ''$$5'')] = Inr (Some ''Fee: $5'')"
  by code_simp

lemma digits_key_is_a_quantifier:
  "forEach_entry no_faults (Some ''Class of {{2024}}'') [(''2024'', JString ''x'')] = Inr (Some ''Class of {{2024}}'')"
  by code_simp

lemma invalid_pattern_throws:
  "forEach_entry no_faults (Some ''Grade {{a++}}'') [(''a++'', JString ''x'')] =
     Inl (JsError ''Invalid regular expression: /{{a++}}/g: Nothing to repeat'')"
  by code_simp

lemma aliasing_keys:
  "forEach_entry no_faults (Some ''{{aXb}}'') [(''a.b'', JNumber 1 0), (''aXb'', JNumber 2 0)] = Inr (Some ''1'') \<and>
   forEach_entry no_faults (Some ''{{aXb}}'') [(''aXb'', JNumber 2 0), (''a.b'', JNumber 1 0)] = Inr (Some ''2'')"
  by code_simp

section \<open>The properties\<close>

text \<open>
  C1, isolation of a record's failure, as the code has it. Take a run whose two queries
  succeed, over a table whose ids are distinct (the primary key), and a selected record
  \<open>c\<close> for which the rendering, the upload or the update to generated throws \<open>e\<close>.
  The handler sends the update that marks \<open>c\<close> failed and does not look at its result:
  if the table accepts that update, the row of \<open>c\<close> ends as \<open>c\<close> with status failed
  and the message of \<open>e\<close>; if the table rejects it, the row of \<open>c\<close> is as it was.
  Either way every selected record has had its turn at the end of the run, and the
  response is the summary, or the error of the closing update: never \<open>e\<close>.
\<close>

theorem per_record_failure_isolation:
  assumes "distinct (map crt_id (certificates db))"
    and "req_method req \<noteq> ''OPTIONS''" and "req_json req = Inr batchId"
    and "select_batch env db batchId = Inr (b, template)"
    and "select_certificates env db batchId = Inr cs"
    and "c \<in> set cs" and "thrown env template c = Some e"
  shows "find (\<lambda>r. crt_id r = crt_id c) (certificates (snd (serve env db req))) =
           Some (case update_certificate_error env (crt_id c) (Failed (message e)) of
                   None \<Rightarrow> c\<lparr>crt_status := ''failed'', crt_error_message := Some (message e)\<rparr>
                 | Some rejected \<Rightarrow> c) \<and>
         (\<forall>d \<in> set cs. find (\<lambda>r. crt_id r = crt_id d) (certificates (snd (serve env db req))) =
                          Some (settle env template d d)) \<and>
         fst (serve env db req) =
           (case update_batch_error env batchId of
              Some batchUpdateError \<Rightarrow> error_response batchUpdateError
            | None \<Rightarrow> \<lparr>status = 200, body = Summary (succeeded env template cs) (length cs) batchId\<rparr>)"
proof (intro conjI ballI)
  have "settle env template c c =
          (case update_certificate_error env (crt_id c) (Failed (message e)) of
             None \<Rightarrow> c\<lparr>crt_status := ''failed'', crt_error_message := Some (message e)\<rparr>
           | Some rejected \<Rightarrow> c)"
    using assms(7) by (simp add: settle_def split: option.splits)
  then show "find (\<lambda>r. crt_id r = crt_id c) (certificates (snd (serve env db req))) =
           Some (case update_certificate_error env (crt_id c) (Failed (message e)) of
                   None \<Rightarrow> c\<lparr>crt_status := ''failed'', crt_error_message := Some (message e)\<rparr>
                 | Some rejected \<Rightarrow> c)"
    using run_row [OF assms(2-5) assms(1) assms(6)] by simp
next
  fix d assume "d \<in> set cs"
  then show "find (\<lambda>r. crt_id r = crt_id d) (certificates (snd (serve env db req))) =
               Some (settle env template d d)"
    by (rule run_row [OF assms(2-5) assms(1)])
next
  show "fst (serve env db req) =
           (case update_batch_error env batchId of
              Some batchUpdateError \<Rightarrow> error_response batchUpdateError
            | None \<Rightarrow> \<lparr>status = 200, body = Summary (succeeded env template cs) (length cs) batchId\<rparr>)"
    by (rule run_response [OF assms(2-5)])
qed

text \<open>
  The theorem at the batch of three records, twice: where the second upload fails and the
  marking is accepted, and where the table rejects every update, so that each record's
  update to generated throws and no marking is accepted. In the second run the rows are
  as they were, the loop has gone through the three records, and the caller gets the
  summary with none processed.
\<close>

theorem per_record_failure_isolation_witness:
  "find (\<lambda>r. crt_id r = ''c2'') (certificates (snd (serve publish_fails_c2 three_pending run_b1))) =
     Some (certificate_c2\<lparr>crt_status := ''failed'',
             crt_error_message := Some ''The object exceeded the maximum allowed size''\<rparr>) \<and>
   fst (serve publish_fails_c2 three_pending run_b1) = \<lparr>status = 200, body = Summary 2 3 ''b1''\<rparr> \<and>
   find (\<lambda>r. crt_id r = ''c1'') (certificates (snd (serve updates_rejected three_pending run_b1))) =
     Some certificate_c1 \<and>
   fst (serve updates_rejected three_pending run_b1) = \<lparr>status = 200, body = Summary 0 3 ''b1''\<rparr>"
proof -
  have h0: "distinct (map crt_id (certificates three_pending))" by code_simp
  have h1: "req_method run_b1 \<noteq> ''OPTIONS''" by code_simp
  have h2: "req_json run_b1 = Inr ''b1''" by code_simp
  have h3: "select_batch publish_fails_c2 three_pending ''b1'' = Inr (batch_b1, Some score_template)"
    by code_simp
  have h4: "select_certificates publish_fails_c2 three_pending ''b1'' =
              Inr [certificate_c1, certificate_c2, certificate_c3]"
    by code_simp
  have h5: "certificate_c2 \<in> set [certificate_c1, certificate_c2, certificate_c3]" by simp
  have h6: "thrown publish_fails_c2 (Some score_template) certificate_c2 =
              Some (JsError ''The object exceeded the maximum allowed size'')"
    by code_simp
  have accepted: "update_certificate_error publish_fails_c2 ''c2''
              (Failed ''The object exceeded the maximum allowed size'') = None"
    by code_simp
  have c2: "crt_id certificate_c2 = ''c2''" by code_simp
  have s: "succeeded publish_fails_c2 (Some score_template) [certificate_c1, certificate_c2, certificate_c3] = 2"
    by code_simp
  have u: "update_batch_error publish_fails_c2 ''b1'' = None" by code_simp
  have first_run:
    "find (\<lambda>r. crt_id r = ''c2'') (certificates (snd (serve publish_fails_c2 three_pending run_b1))) =
       Some (certificate_c2\<lparr>crt_status := ''failed'',
               crt_error_message := Some ''The object exceeded the maximum allowed size''\<rparr>) \<and>
     fst (serve publish_fails_c2 three_pending run_b1) = \<lparr>status = 200, body = Summary 2 3 ''b1''\<rparr>"
    using per_record_failure_isolation [OF h0 h1 h2 h3 h4 h5 h6] by (simp add: accepted c2 s u)
  have k3: "select_batch updates_rejected three_pending ''b1'' = Inr (batch_b1, Some score_template)"
    by code_simp
  have k4: "select_certificates updates_rejected three_pending ''b1'' =
              Inr [certificate_c1, certificate_c2, certificate_c3]"
    by code_simp
  have k5: "certificate_c1 \<in> set [certificate_c1, certificate_c2, certificate_c3]" by simp
  have k6: "thrown updates_rejected (Some score_template) certificate_c1 =
              Some (JsError ''permission denied for table certificates'')"
    by code_simp
  have rejected: "update_certificate_error updates_rejected ''c1''
              (Failed ''permission denied for table certificates'') =
            Some (JsError ''permission denied for table certificates'')"
    by code_simp
  have c1: "crt_id certificate_c1 = ''c1''" by code_simp
  have s0: "succeeded updates_rejected (Some score_template) [certificate_c1, certificate_c2, certificate_c3] = 0"
    by code_simp
  have u0: "update_batch_error updates_rejected ''b1'' = None" by code_simp
  have second_run:
    "find (\<lambda>r. crt_id r = ''c1'') (certificates (snd (serve updates_rejected three_pending run_b1))) =
       Some certificate_c1 \<and>
     fst (serve updates_rejected three_pending run_b1) = \<lparr>status = 200, body = Summary 0 3 ''b1''\<rparr>"
    using per_record_failure_isolation [OF h0 h1 h2 k3 k4 k5 k6] by (simp add: rejected c1 s0 u0)
  show ?thesis
    using first_run second_run by simp
qed

text \<open>
  C1 as stated does not hold where the table rejects the update that marks the record
  failed: with every update to \<^verbatim>\<open>certificates\<close> rejected, the update to generated
  throws for the first record, and the run leaves the three rows pending, without a
  message.
\<close>

theorem per_record_failure_isolation_counterexample:
  "thrown updates_rejected (Some score_template) certificate_c1 =
     Some (JsError ''permission denied for table certificates'') \<and>
   certificates (snd (serve updates_rejected three_pending run_b1)) =
     [certificate_c1, certificate_c2, certificate_c3] \<and>
   crt_status certificate_c1 = ''pending'' \<and> crt_error_message certificate_c1 = None"
  by code_simp

text \<open>
  C2, the closing update, as the code has it. Take a run whose two queries succeed and whose
  closing update is accepted; let \<open>N\<close> be the number of records selected, which are the
  pending ones of the batch, and \<open>S\<close> the number of them whose turn throws nothing. The
  row of the batch gets status completed if \<open>S = N\<close> (also when \<open>N = 0\<close>) and partial
  otherwise, \<open>generated_certificates = S\<close>, whatever it was before, and the time of the
  update; every other row is as it was.
\<close>

theorem batch_finalization:
  assumes "req_method req \<noteq> ''OPTIONS''" and "req_json req = Inr batchId"
    and "select_batch env db batchId = Inr (b, template)"
    and "select_certificates env db batchId = Inr cs"
    and "update_batch_error env batchId = None"
  shows "cs = filter (pending_of batchId) (certificates db) \<and>
         certificate_batches (snd (serve env db req)) =
           map (\<lambda>r. if bat_id r = batchId
                     then r\<lparr>bat_status := (if succeeded env template cs = length cs then ''completed'' else ''partial''),
                            generated_certificates := int (succeeded env template cs),
                            bat_updated_at := now_ISOString env\<rparr>
                     else r)
             (certificate_batches db)"
proof
  show "cs = filter (pending_of batchId) (certificates db)"
    using assms(4) by (rule select_certificates_Inr)
next
  have "certificate_batches (after_loop env template cs db) = certificate_batches db"
    by (simp add: after_loop_def loop_batches)
  then show "certificate_batches (snd (serve env db req)) =
           map (\<lambda>r. if bat_id r = batchId
                     then r\<lparr>bat_status := (if succeeded env template cs = length cs then ''completed'' else ''partial''),
                            generated_certificates := int (succeeded env template cs),
                            bat_updated_at := now_ISOString env\<rparr>
                     else r)
             (certificate_batches db)"
    unfolding run_store [OF assms(1-4)]
    using assms(5) by (simp add: update_batch_def)
qed

text \<open>The theorem at the batch of three records, where the second upload fails: partial, 2.\<close>

theorem batch_finalization_witness:
  "map bat_status (certificate_batches (snd (serve publish_fails_c2 three_pending run_b1))) = [''partial''] \<and>
   map generated_certificates (certificate_batches (snd (serve publish_fails_c2 three_pending run_b1))) = [2]"
proof -
  have h1: "req_method run_b1 \<noteq> ''OPTIONS''" by code_simp
  have h2: "req_json run_b1 = Inr ''b1''" by code_simp
  have h3: "select_batch publish_fails_c2 three_pending ''b1'' = Inr (batch_b1, Some score_template)"
    by code_simp
  have h4: "select_certificates publish_fails_c2 three_pending ''b1'' =
              Inr [certificate_c1, certificate_c2, certificate_c3]"
    by code_simp
  have h5: "update_batch_error publish_fails_c2 ''b1'' = None" by code_simp
  have s: "succeeded publish_fails_c2 (Some score_template) [certificate_c1, certificate_c2, certificate_c3] = 2"
    by code_simp
  have rows: "certificate_batches three_pending = [batch_b1]" "bat_id batch_b1 = ''b1''"
    by (simp_all add: three_pending_def batch_b1_def)
  show ?thesis
    using batch_finalization [OF h1 h2 h3 h4 h5] by (simp add: s rows)
qed

text \<open>
  C2 as stated fails twice. With nothing pending (\<open>N = 0\<close>) the batch is set to
  completed, not partial. With \<open>N = 3\<close> and \<open>S = 2\<close>, \<open>generated_certificates\<close> is
  set to \<open>S = 2\<close>, not to \<open>N - S = 1\<close>.
\<close>

theorem batch_finalization_counterexample:
  "select_certificates no_faults nothing_pending ''b1'' = Inr [] \<and>
   map bat_status (certificate_batches (snd (serve no_faults nothing_pending run_b1))) = [''completed''] \<and>
   length [certificate_c1, certificate_c2, certificate_c3] = 3 \<and>
   succeeded publish_fails_c2 (Some score_template) [certificate_c1, certificate_c2, certificate_c3] = 2 \<and>
   map generated_certificates (certificate_batches (snd (serve publish_fails_c2 three_pending run_b1))) \<noteq> [3 - 2]"
  by code_simp

text \<open>
  C3, every occurrence is replaced, as the code has it. For a well-formed template and
  data whose keys are plain and whose values are safe, the rendering of a record is the
  template in which every marker \<^verbatim>\<open>{{k}}\<close> of a key \<open>k\<close> of the data, at every
  occurrence, is replaced by \<^verbatim>\<open>String\<close> of the value of \<open>k\<close> (a safe integer in
  decimal notation, any other number as the host prints it, a boolean as \<^verbatim>\<open>true\<close> or
  \<^verbatim>\<open>false\<close>), and everything else is as in the template.
\<close>

theorem substitution_replaces_all:
  assumes "template_content t = Some (template_text segs)" and "certificate_data c = Some entries"
    and "list_all wf_segment segs" and "list_all (plain_entry env) entries"
  shows "htmlContent env (Some t) c = Inr (Some (template_text (map (fill env entries) segs)))"
  using assms forEach_segments [of segs env entries] by (simp add: htmlContent_def)

text \<open>
  The theorem at a template that has the marker of the name twice, and data with a text, a
  number and a boolean: both occurrences of the name are replaced, the number is in
  decimal notation and the boolean is \<^verbatim>\<open>true\<close>.
\<close>

theorem substitution_replaces_all_witness:
  "htmlContent no_faults (Some farewell_template) certificate_c4 =
     Inr (Some ''Hello Ana, you scored 95 (passed: true). Goodbye, Ana'')"
proof -
  have h1: "template_content farewell_template = Some (template_text farewell_segments)" by code_simp
  have h2: "certificate_data certificate_c4 =
              Some [(''name'', JString ''Ana''), (''score'', JNumber 95 0), (''passed'', JBool True)]"
    by code_simp
  have h3: "list_all wf_segment farewell_segments" by code_simp
  have h4: "list_all (plain_entry no_faults)
              [(''name'', JString ''Ana''), (''score'', JNumber 95 0), (''passed'', JBool True)]"
    by code_simp
  have filled: "template_text (map (fill no_faults
                  [(''name'', JString ''Ana''), (''score'', JNumber 95 0), (''passed'', JBool True)])
                  farewell_segments) =
                ''Hello Ana, you scored 95 (passed: true). Goodbye, Ana''"
    by code_simp
  show ?thesis
    using substitution_replaces_all [OF h1 h2 h3 h4] by (simp add: filled)
qed

text \<open>
  C3 as stated fails because the entries are substituted one after the other into the
  result so far. Where the value of \<open>a\<close> is the marker of the later key \<open>b\<close>, the
  occurrence of \<^verbatim>\<open>{{a}}\<close> ends as the value of \<open>b\<close>, not as \<^verbatim>\<open>String\<close> of the value of
  \<open>a\<close>; where the marker of \<open>a\<close> stands inside other braces, its value completes the
  marker of a later key and goes with it.
\<close>

theorem substitution_replaces_all_counterexample:
  "forEach_entry no_faults (Some ''{{a}}'') [(''a'', JString ''{{b}}''), (''b'', JString ''X'')] = Inr (Some ''X'') \<and>
   js_String no_faults (JString ''{{b}}'') = ''{{b}}'' \<and>
   forEach_entry no_faults (Some ''{{x{{a}}y}}'') [(''a'', JNumber 1 0), (''x1y'', JString ''Z'')] = Inr (Some ''Z'') \<and>
   js_String no_faults (JNumber 1 0) = ''1''"
  by code_simp

text \<open>
  C4, markers of absent keys. The key is spliced into the pattern unescaped, so a dot in
  the key \<^verbatim>\<open>first.name\<close> matches any character: the marker \<^verbatim>\<open>{{first_name}}\<close>, whose
  key is absent from the data, is replaced all the same.
\<close>

theorem absent_key_marker_replaced:
  "map_of [(''first.name'', JString ''Ana'')] ''first_name'' = None \<and>
   forEach_entry no_faults (Some ''Dear {{first_name}}'') [(''first.name'', JString ''Ana'')] =
     Inr (Some ''Dear Ana'')"
  by code_simp

text \<open>
  C5, the order of the keys, as the code has it. For a well-formed template and data whose
  keys are plain and distinct and whose values are safe, the result of the substitution is
  the same for every order in which the entries are listed.
\<close>

theorem order_independence:
  assumes "list_all wf_segment segs" and "list_all (plain_entry env) entries"
    and "distinct (map fst entries)" and "distinct (map fst entries')" and "set entries' = set entries"
  shows "forEach_entry env (Some (template_text segs)) entries' =
         forEach_entry env (Some (template_text segs)) entries"
proof -
  have "list_all (plain_entry env) entries'"
    using assms(2,5) by (simp add: list_all_iff)
  moreover have "map_of entries' = map_of entries"
    using assms(3-5) by (simp add: map_of_inject_set)
  then have "fill env entries' = fill env entries"
  proof -
    assume m: "map_of entries' = map_of entries"
    show ?thesis
    proof
      fix seg show "fill env entries' seg = fill env entries seg"
        by (cases seg) (simp_all add: m)
    qed
  qed
  ultimately show ?thesis
    using assms(1,2) by (simp add: forEach_segments)
qed

text \<open>The theorem at the scenario of the specification, score first or name first.\<close>

theorem order_independence_witness:
  "forEach_entry no_faults (Some ''Hello {{name}}, you scored {{score}}'')
     [(''score'', JNumber 95 0), (''name'', JString ''Ana'')] =
   forEach_entry no_faults (Some ''Hello {{name}}, you scored {{score}}'')
     [(''name'', JString ''Ana''), (''score'', JNumber 95 0)]"
proof -
  have h1: "list_all wf_segment score_segments" by code_simp
  have h2: "list_all (plain_entry no_faults) [(''name'', JString ''Ana''), (''score'', JNumber 95 0)]" by code_simp
  have h3: "distinct (map fst [(''name'', JString ''Ana''), (''score'', JNumber 95 0)])" by code_simp
  have h4: "distinct (map fst [(''score'', JNumber 95 0), (''name'', JString ''Ana'')])" by code_simp
  have h5: "set [(''score'', JNumber 95 0), (''name'', JString ''Ana'')] =
            set [(''name'', JString ''Ana''), (''score'', JNumber 95 0)]"
    by auto
  have flat: "template_text score_segments = ''Hello {{name}}, you scored {{score}}''" by code_simp
  show ?thesis
    using order_independence [OF h1 h2 h3 h4 h5] by (simp add: flat)
qed

text \<open>
  C5 as stated fails where a value is the marker of another key: \<open>a\<close> before \<open>b\<close>
  gives the value of \<open>b\<close>, \<open>b\<close> before \<open>a\<close> leaves the marker of \<open>b\<close>. It also
  fails where the marker of \<open>a\<close> stands inside other braces and its value completes the
  marker of the other key.
\<close>

theorem order_independence_counterexample:
  "forEach_entry no_faults (Some ''{{a}}'') [(''a'', JString ''{{b}}''), (''b'', JString ''X'')] = Inr (Some ''X'') \<and>
   forEach_entry no_faults (Some ''{{a}}'') [(''b'', JString ''X''), (''a'', JString ''{{b}}'')] = Inr (Some ''{{b}}'') \<and>
   forEach_entry no_faults (Some ''{{x{{a}}y}}'') [(''a'', JNumber 1 0), (''x1y'', JString ''Z'')] = Inr (Some ''Z'') \<and>
   forEach_entry no_faults (Some ''{{x{{a}}y}}'') [(''x1y'', JString ''Z''), (''a'', JNumber 1 0)] = Inr (Some ''{{x1y}}'')"
  by code_simp

text \<open>
  C6, substituting twice, as the code has it. For a well-formed template and data whose
  keys are plain and whose values are safe, the substitution succeeds, and substituting
  the same data into its result gives that result again.
\<close>

theorem idempotent_rendering:
  assumes "list_all wf_segment segs" and "list_all (plain_entry env) entries"
  shows "forEach_entry env (Some (template_text segs)) entries =
           Inr (Some (template_text (map (fill env entries) segs))) \<and>
         forEach_entry env (Some (template_text (map (fill env entries) segs))) entries =
           Inr (Some (template_text (map (fill env entries) segs)))"
proof
  show "forEach_entry env (Some (template_text segs)) entries =
           Inr (Some (template_text (map (fill env entries) segs)))"
    using assms by (rule forEach_segments)
next
  have "list_all wf_segment (map (fill env entries) segs)"
    using assms by (simp add: list_all_iff wf_fill)
  then have "forEach_entry env (Some (template_text (map (fill env entries) segs))) entries =
             Inr (Some (template_text (map (fill env entries) (map (fill env entries) segs))))"
    using assms(2) by (rule forEach_segments)
  then show "forEach_entry env (Some (template_text (map (fill env entries) segs))) entries =
           Inr (Some (template_text (map (fill env entries) segs)))"
    by (simp add: fill_idem o_def)
qed

text \<open>The theorem at the scenario of the specification with the score missing.\<close>

theorem idempotent_rendering_witness:
  "forEach_entry no_faults (Some ''Hello {{name}}, you scored {{score}}'') [(''name'', JString ''Ana'')] =
     Inr (Some ''Hello Ana, you scored {{score}}'') \<and>
   forEach_entry no_faults (Some ''Hello Ana, you scored {{score}}'') [(''name'', JString ''Ana'')] =
     Inr (Some ''Hello Ana, you scored {{score}}'')"
proof -
  have h1: "list_all wf_segment score_segments" by code_simp
  have h2: "list_all (plain_entry no_faults) [(''name'', JString ''Ana'')]" by code_simp
  have flat: "template_text score_segments = ''Hello {{name}}, you scored {{score}}''" by code_simp
  have filled: "template_text (map (fill no_faults [(''name'', JString ''Ana'')]) score_segments) =
                  ''Hello Ana, you scored {{score}}''"
    by code_simp
  show ?thesis
    using idempotent_rendering [OF h1 h2] by (simp add: flat filled)
qed

text \<open>
  C6 as stated fails although the value has no marker text in it: inside doubled braces,
  the value \<^verbatim>\<open>a\<close> of the key \<open>a\<close> completes a new marker \<^verbatim>\<open>{{a}}\<close>, which the second
  substitution replaces.
\<close>

theorem idempotent_rendering_counterexample:
  "forEach_entry no_faults (Some ''{{{{a}}}}'') [(''a'', JString ''a'')] = Inr (Some ''{{a}}'') \<and>
   forEach_entry no_faults (Some ''{{a}}'') [(''a'', JString ''a'')] = Inr (Some ''a'')"
  by code_simp

text \<open>
  C7, only the pending records. In a run whose two queries succeed, over a table whose ids
  are distinct (the primary key): the records loaded are exactly the rows of the batch
  with status pending; each of them has its turn; every other row, whatever its status or
  its batch, is as it was, and nothing is stored under its file name.
\<close>

theorem pending_only_selection:
  assumes "distinct (map crt_id (certificates db))"
    and "req_method req \<noteq> ''OPTIONS''" and "req_json req = Inr batchId"
    and "select_batch env db batchId = Inr (b, template)"
    and "select_certificates env db batchId = Inr cs"
  shows "cs = filter (pending_of batchId) (certificates db) \<and>
         certificates (snd (serve env db req)) =
           map (\<lambda>r. if pending_of batchId r then settle env template r r else r) (certificates db) \<and>
         (\<forall>r \<in> set (certificates db). \<not> pending_of batchId r \<longrightarrow>
            storage (snd (serve env db req)) (certificateFileName r) = storage db (certificateFileName r))"
  using select_certificates_Inr [OF assms(5)]
    run_certificates [OF assms(2-5) assms(1)]
    run_storage_other [OF assms(2-5) assms(1)]
  by blast

text \<open>
  The theorem at a second run over the batch, after the first left one record generated,
  one failed and one pending: only the pending one is attempted.
\<close>

theorem pending_only_selection_witness:
  "certificates (snd (serve no_faults after_partial_run run_b1)) =
     [certificates after_partial_run ! 0, certificates after_partial_run ! 1,
      certificate_c3\<lparr>crt_status := ''generated'',
        certificate_url := Some ''https://project.supabase.co/storage/v1/object/public/certificates/certificate_c3.html''\<rparr>] \<and>
   storage (snd (serve no_faults after_partial_run run_b1)) ''certificate_c2.html'' = None"
proof -
  have h0: "distinct (map crt_id (certificates after_partial_run))" by code_simp
  have h1: "req_method run_b1 \<noteq> ''OPTIONS''" by code_simp
  have h2: "req_json run_b1 = Inr ''b1''" by code_simp
  have h3: "select_batch no_faults after_partial_run ''b1'' = Inr (batch_b1, Some score_template)"
    by code_simp
  have h4: "select_certificates no_faults after_partial_run ''b1'' = Inr [certificate_c3]"
    by code_simp
  have rows: "map (\<lambda>r. if pending_of ''b1'' r then settle no_faults (Some score_template) r r else r)
                (certificates after_partial_run) =
              [certificates after_partial_run ! 0, certificates after_partial_run ! 1,
               certificate_c3\<lparr>crt_status := ''generated'',
                 certificate_url := Some ''https://project.supabase.co/storage/v1/object/public/certificates/certificate_c3.html''\<rparr>]"
    by code_simp
  have c2: "certificates after_partial_run ! 1 \<in> set (certificates after_partial_run)"
    "\<not> pending_of ''b1'' (certificates after_partial_run ! 1)"
    "certificateFileName (certificates after_partial_run ! 1) = ''certificate_c2.html''"
    "storage after_partial_run ''certificate_c2.html'' = None"
    by code_simp+
  show ?thesis
    using pending_only_selection [OF h0 h1 h2 h3 h4] c2 by (simp add: rows) metis
qed

text \<open>
  C8, fatal errors and the shape of the result, as the code has it. For a request that
  carries a batch id: if the query for the batch and its template fails, or the query for
  the pending records fails, the response is the error's message with status 500 and the
  store is untouched; if the closing update fails, the response is that error's message
  with status 500 and the store is what the loop has left, with nothing rolled back;
  otherwise the response is the summary with status 200, in which \<open>processed\<close> is the
  number of records of this run whose turn threw nothing and \<open>total\<close> is the number of
  records selected.
\<close>

theorem fatal_error_propagation:
  assumes "req_method req \<noteq> ''OPTIONS''" and "req_json req = Inr batchId"
  shows "serve env db req =
     (case select_batch env db batchId of
        Inl batchError \<Rightarrow> (error_response batchError, db)
      | Inr (b, template) \<Rightarrow>
          (case select_certificates env db batchId of
             Inl certificatesError \<Rightarrow> (error_response certificatesError, db)
           | Inr cs \<Rightarrow>
               (case update_batch_error env batchId of
                  Some batchUpdateError \<Rightarrow> (error_response batchUpdateError, after_loop env template cs db)
                | None \<Rightarrow>
                    (\<lparr>status = 200, body = Summary (succeeded env template cs) (length cs) batchId\<rparr>,
                     snd (update_batch env batchId (succeeded env template cs) (length cs)
                            (after_loop env template cs db))))))"
proof (cases "select_batch env db batchId")
  case (Inl e)
  with assms show ?thesis by (simp add: serve_def)
next
  case found: (Inr bt)
  obtain b template where bt: "bt = (b, template)" by (cases bt)
  show ?thesis
  proof (cases "select_certificates env db batchId")
    case (Inl e)
    with assms found bt show ?thesis by (simp add: serve_def)
  next
    case certs: (Inr cs)
    show ?thesis
      unfolding serve_run [OF assms found [unfolded bt] certs]
      by (simp add: found bt certs update_batch_def split: option.splits)
  qed
qed

text \<open>
  The theorem where the closing update fails: the caller gets the error, and the three
  records keep the statuses the loop gave them.
\<close>

theorem fatal_error_propagation_witness:
  "fst (serve closing_update_fails three_pending run_b1) = \<lparr>status = 500, body = ErrorMessage ''connection timed out''\<rparr> \<and>
   map crt_status (certificates (snd (serve closing_update_fails three_pending run_b1))) =
     [''generated'', ''failed'', ''generated'']"
proof -
  have h1: "req_method run_b1 \<noteq> ''OPTIONS''" by code_simp
  have h2: "req_json run_b1 = Inr ''b1''" by code_simp
  have h3: "select_batch closing_update_fails three_pending ''b1'' = Inr (batch_b1, Some score_template)"
    by code_simp
  have h4: "select_certificates closing_update_fails three_pending ''b1'' =
              Inr [certificate_c1, certificate_c2, certificate_c3]"
    by code_simp
  have h5: "update_batch_error closing_update_fails ''b1'' = Some (JsError ''connection timed out'')"
    by code_simp
  have rows: "map crt_status (certificates (after_loop closing_update_fails (Some score_template)
                [certificate_c1, certificate_c2, certificate_c3] three_pending)) =
              [''generated'', ''failed'', ''generated'']"
    by code_simp
  show ?thesis
    using fatal_error_propagation [OF h1 h2, of closing_update_fails three_pending]
    by (simp add: h3 h4 h5 rows error_response_def)
qed

text \<open>
  C8 as stated names two fatal errors and promises the summary otherwise. The query for
  the pending records is a third: where it fails, the batch and its template have been
  found and the closing update is never sent, and the response is the error.
\<close>

theorem fatal_error_propagation_counterexample:
  "select_batch records_query_fails three_pending ''b1'' = Inr (batch_b1, Some score_template) \<and>
   update_batch_error records_query_fails ''b1'' = None \<and>
   fst (serve records_query_fails three_pending run_b1) =
     \<lparr>status = 500, body = ErrorMessage ''canceling statement due to statement timeout''\<rparr>"
  by code_simp

text \<open>
  C9, the frame of the closing update. Whatever the request and whatever fails, a run
  changes no field of any batch row other than \<open>status\<close>, \<open>generated_certificates\<close>
  and \<open>updated_at\<close>: \<open>total_certificates\<close>, \<open>error_message\<close>, \<open>batch_zip_url\<close>,
  \<open>batch_name\<close>, \<open>template_id\<close> (and the id, the owner and the creation time) are as
  they were, and no row is added or removed.
\<close>

theorem finalization_frame:
  "map batch_frame (certificate_batches (snd (serve env db req))) = map batch_frame (certificate_batches db)"
proof (cases "req_method req = ''OPTIONS''")
  case True
  then show ?thesis by (simp add: serve_def)
next
  case post: False
  show ?thesis
  proof (cases "req_json req")
    case (Inl e)
    with post show ?thesis by (simp add: serve_def)
  next
    case (Inr batchId)
    show ?thesis
    proof (cases "select_batch env db batchId")
      case (Inl e)
      with post Inr show ?thesis by (simp add: serve_def)
    next
      case found: (Inr bt)
      obtain b template where bt: "bt = (b, template)" by (cases bt)
      show ?thesis
      proof (cases "select_certificates env db batchId")
        case (Inl e)
        with post Inr found bt show ?thesis by (simp add: serve_def)
      next
        case certs: (Inr cs)
        have run: "snd (serve env db req) =
                   snd (update_batch env batchId (succeeded env template cs) (length cs) (after_loop env template cs db))"
          using serve_run [OF post Inr found [unfolded bt] certs]
          by (simp split: prod.splits option.splits)
        show ?thesis
          unfolding run update_batch_frame
          by (simp add: after_loop_def loop_batches)
      qed
    qed
  qed
qed

text \<open>
  C10, a record without data. In a run whose two queries succeed, over a table whose ids
  are distinct, for a template that has a body and a selected record whose
  \<open>certificate_data\<close> is null: the rendering is the template's body, unchanged. If the
  upload and the update for this record are accepted, the body is what is stored under the
  record's file name, and the record's row ends with status generated and the public URL of
  that file.
\<close>

theorem null_data_published_verbatim:
  assumes "distinct (map crt_id (certificates db))"
    and "req_method req \<noteq> ''OPTIONS''" and "req_json req = Inr batchId"
    and "select_batch env db batchId = Inr (b, Some t)"
    and "template_content t = Some template_body"
    and "select_certificates env db batchId = Inr cs"
    and "c \<in> set cs" and "certificate_data c = None"
    and "upload_error env (certificateFileName c) template_body = None"
    and "update_certificate_error env (crt_id c) (Generated (getPublicUrl env (certificateFileName c))) = None"
  shows "htmlContent env (Some t) c = Inr (Some template_body) \<and>
         storage (snd (serve env db req)) (certificateFileName c) = Some template_body \<and>
         find (\<lambda>r. crt_id r = crt_id c) (certificates (snd (serve env db req))) =
           Some (c\<lparr>crt_status := ''generated'',
                   certificate_url := Some (getPublicUrl env (certificateFileName c))\<rparr>)"
proof (intro conjI)
  show content: "htmlContent env (Some t) c = Inr (Some template_body)"
    using assms(5,8) by (simp add: htmlContent_def)
  have "published env (Some t) c = Some template_body"
    using content assms(9) by (simp add: published_def blob_text_def)
  then show "storage (snd (serve env db req)) (certificateFileName c) = Some template_body"
    by (rule run_storage [OF assms(2-4) assms(6) assms(1) assms(7)])
  have "thrown env (Some t) c = None"
    using content assms(9,10) by (simp add: thrown_def blob_text_def)
  then have "settle env (Some t) c c =
               c\<lparr>crt_status := ''generated'', certificate_url := Some (getPublicUrl env (certificateFileName c))\<rparr>"
    by (simp add: settle_def)
  then show "find (\<lambda>r. crt_id r = crt_id c) (certificates (snd (serve env db req))) =
           Some (c\<lparr>crt_status := ''generated'',
                   certificate_url := Some (getPublicUrl env (certificateFileName c))\<rparr>)"
    using run_row [OF assms(2-4) assms(6) assms(1) assms(7)] by simp
qed

text \<open>The theorem at the third record of the batch of three, which has no data.\<close>

theorem null_data_published_verbatim_witness:
  "storage (snd (serve publish_fails_c2 three_pending run_b1)) ''certificate_c3.html'' =
     Some ''Hello {{name}}, you scored {{score}}'' \<and>
   find (\<lambda>r. crt_id r = ''c3'') (certificates (snd (serve publish_fails_c2 three_pending run_b1))) =
     Some (certificate_c3\<lparr>crt_status := ''generated'',
        certificate_url := Some ''https://project.supabase.co/storage/v1/object/public/certificates/certificate_c3.html''\<rparr>)"
proof -
  have h0: "distinct (map crt_id (certificates three_pending))" by code_simp
  have h1: "req_method run_b1 \<noteq> ''OPTIONS''" by code_simp
  have h2: "req_json run_b1 = Inr ''b1''" by code_simp
  have h3: "select_batch publish_fails_c2 three_pending ''b1'' = Inr (batch_b1, Some score_template)"
    by code_simp
  have h4: "template_content score_template = Some ''Hello {{name}}, you scored {{score}}''"
    by code_simp
  have h5: "select_certificates publish_fails_c2 three_pending ''b1'' =
              Inr [certificate_c1, certificate_c2, certificate_c3]"
    by code_simp
  have h6: "certificate_c3 \<in> set [certificate_c1, certificate_c2, certificate_c3]" by simp
  have h7: "certificate_data certificate_c3 = None" by code_simp
  have h8: "upload_error publish_fails_c2 (certificateFileName certificate_c3)
              ''Hello {{name}}, you scored {{score}}'' = None"
    by code_simp
  have h9: "update_certificate_error publish_fails_c2 (crt_id certificate_c3)
              (Generated (getPublicUrl publish_fails_c2 (certificateFileName certificate_c3))) = None"
    by code_simp
  have names: "certificateFileName certificate_c3 = ''certificate_c3.html''" "crt_id certificate_c3 = ''c3''"
    "getPublicUrl publish_fails_c2 ''certificate_c3.html'' =
       ''https://project.supabase.co/storage/v1/object/public/certificates/certificate_c3.html''"
    by code_simp+
  show ?thesis
    using null_data_published_verbatim [OF h0 h1 h2 h3 h4 h5 h6 h7 h8 h9] by (simp add: names)
qed

end
